theory Spec2Isabelle
  imports Main "HOL-Library.Word" "HOL-Library.Signed_Division"

begin

unbundle bit_operations_syntax

section \<open>Machine types and runtime exceptions\<close>

text \<open>
  The intrinsics exchange 32-bit integers with the guest (\<open>I32\<close>, \<open>U32\<close>); host
  pointers and sizes (\<open>Uptr\<close>, \<open>Iptr\<close>, \<open>size_t\<close>, \<open>ssize_t\<close>) are 64 bits wide.
  A guest offset is a natural number once it has been converted to \<open>Uptr\<close>: an \<open>I32\<close>
  is sign-extended by the conversion, a \<open>U32\<close> is zero-extended.
\<close>

type_synonym U8 = "8 word"

type_synonym I32 = "32 word"

type_synonym U32 = "32 word"

type_synonym I64 = "64 word"

definition I32_to_Uptr :: "I32 \<Rightarrow> nat" where
  "I32_to_Uptr p = unat (scast p :: 64 word)"

definition U32_to_Uptr :: "U32 \<Rightarrow> nat" where
  "U32_to_Uptr p = unat p"

text \<open>
  The ways an intrinsic can end without returning to the guest: the runtime's
  \<open>calledUnimplementedIntrinsic\<close> exception (every \<open>throwException\<close> of the sources), the
  runtime's fault on a guest offset outside linear memory, a C++ \<open>std::runtime_error\<close>
  with its message, the hardware trap of an integer division by zero, the
  dereference of a null host pointer, and the C++ \<open>std::bad_array_new_length\<close> of an
  array \<open>new\<close> with a negative length.
\<close>

datatype exception =
    calledUnimplementedIntrinsic
  | outOfBoundsMemoryAccess
  | runtime_error string
  | integerDivideByZero
  | nullPointerDereference
  | bad_array_new_length

section \<open>Guest linear memory\<close>

text \<open>
  Modelled from the spec: the memory accessors \<open>memoryRef\<close>, \<open>memoryArrayPtr\<close>,
  \<open>getMemoryNumPages\<close> and \<open>growMemory\<close> belong to the WebAssembly runtime, which is not
  part of the sources. The specification's Memory View (sections 3 and 4.A) fixes their
  contract: the page size is 65536 bytes, every translation of a guest offset and length
  fails when the range exceeds the current memory size, and growing by \<open>n\<close> pages
  returns the index of the first newly allocated page.
\<close>

record memory =
  mem_bytes :: "nat \<Rightarrow> U8"
  mem_numPages :: nat

definition numBytesPerPage :: nat where
  "numBytesPerPage = 65536"

definition getMemoryNumPages :: "memory \<Rightarrow> nat" where
  "getMemoryNumPages m = mem_numPages m"

definition validRange :: "memory \<Rightarrow> nat \<Rightarrow> nat \<Rightarrow> bool" where
  "validRange m off n \<longleftrightarrow> off + n \<le> getMemoryNumPages m * numBytesPerPage"

definition growMemory :: "memory \<Rightarrow> nat \<Rightarrow> nat \<times> memory" where
  "growMemory m n = (getMemoryNumPages m, m\<lparr>mem_numPages := mem_numPages m + n\<rparr>)"

fun load_bytes :: "memory \<Rightarrow> nat \<Rightarrow> nat \<Rightarrow> U8 list" where
  "load_bytes m off 0 = []"
| "load_bytes m off (Suc n) = mem_bytes m off # load_bytes m (Suc off) n"

fun store_bytes :: "memory \<Rightarrow> nat \<Rightarrow> U8 list \<Rightarrow> memory" where
  "store_bytes m off [] = m"
| "store_bytes m off (b # bs) =
     store_bytes (m\<lparr>mem_bytes := (mem_bytes m)(off := b)\<rparr>) (Suc off) bs"

text \<open>Little-endian layout of the guest's integers.\<close>

fun le_word :: "U8 list \<Rightarrow> 'a::len word" where
  "le_word [] = 0"
| "le_word (b # bs) = ucast b OR push_bit 8 (le_word bs)"

fun le_bytes :: "nat \<Rightarrow> 'a::len word \<Rightarrow> U8 list" where
  "le_bytes 0 w = []"
| "le_bytes (Suc n) w = ucast w # le_bytes n (drop_bit 8 w)"

definition load_U32 :: "memory \<Rightarrow> nat \<Rightarrow> U32" where
  "load_U32 m off = le_word (load_bytes m off 4)"

definition store_U32 :: "memory \<Rightarrow> nat \<Rightarrow> U32 \<Rightarrow> memory" where
  "store_U32 m off w = store_bytes m off (le_bytes 4 w)"

fun load_U32s :: "memory \<Rightarrow> nat \<Rightarrow> nat \<Rightarrow> U32 list" where
  "load_U32s m off 0 = []"
| "load_U32s m off (Suc n) = load_U32 m off # load_U32s m (off + 4) n"

text \<open>\<open>memoryArrayPtr<U8>\<close> and \<open>memoryArrayPtr<U32>\<close>: the validated view, read at once.\<close>

definition memoryArrayPtr_U8 :: "memory \<Rightarrow> nat \<Rightarrow> nat \<Rightarrow> exception + U8 list" where
  "memoryArrayPtr_U8 m off n =
     (if validRange m off n then Inr (load_bytes m off n) else Inl outOfBoundsMemoryAccess)"

definition memoryArrayPtr_U32 :: "memory \<Rightarrow> nat \<Rightarrow> nat \<Rightarrow> exception + U32 list" where
  "memoryArrayPtr_U32 m off n =
     (if validRange m off (4 * n) then Inr (load_U32s m off n) else Inl outOfBoundsMemoryAccess)"

definition memoryRef_U32 :: "memory \<Rightarrow> nat \<Rightarrow> exception + U32" where
  "memoryRef_U32 m off =
     (if validRange m off 4 then Inr (load_U32 m off) else Inl outOfBoundsMemoryAccess)"

text \<open>
  \<open>&memoryRef<char>(memory, ptr)\<close> used as a C string: the bytes from the offset up to
  the first NUL. The scan stops at the end of linear memory.
\<close>

fun scan_cstring :: "memory \<Rightarrow> nat \<Rightarrow> nat \<Rightarrow> U8 list option" where
  "scan_cstring m off 0 = None"
| "scan_cstring m off (Suc n) =
     (if mem_bytes m off = 0 then Some []
      else map_option ((#) (mem_bytes m off)) (scan_cstring m (Suc off) n))"

definition memoryRef_cstring :: "memory \<Rightarrow> nat \<Rightarrow> exception + U8 list" where
  "memoryRef_cstring m off =
     (case scan_cstring m off (getMemoryNumPages m * numBytesPerPage - off) of
        None \<Rightarrow> Inl outOfBoundsMemoryAccess
      | Some s \<Rightarrow> Inr s)"

definition c_str :: "string \<Rightarrow> U8 list" where
  "c_str s = map of_char s"

section \<open>The host kernel and the per-thread environment\<close>

text \<open>
  Each native call an intrinsic makes is recorded, with the argument values the kernel
  sees. The kernel's answer is a parameter of the model: a function from the calls made
  so far and the present call to a reply, which holds the return value and whatever the
  kernel stored through the pointers it was given.
\<close>

datatype host_call =
    H_open string
  | H_read I32 nat
  | H_close I32
  | H_poll "U8 list" I32
  | H_writev I32 "U8 list list"
  | H_socket U32 U32 U32
  | H_connect I32 "U8 list"
  | H_send I32 "U8 list" I32
  | H_recv I32 nat I32
  | H_sendto I32 "U8 list" I32 "U8 list"
  | H_recvfrom I32 nat I32 "U8 list"
  | H_bind I32 "U8 list"
  | H_getsockname I32 "U8 list"
  | H_clock_gettime I32

record host_reply =
  ret :: I64
  out_data :: "U8 list"
  out_addr :: "U8 list"
  out_len :: U32
  out_sec :: I64
  out_nsec :: I64

type_synonym host = "host_call list \<Rightarrow> host_call \<Rightarrow> host_reply"

text \<open>
  The thread-local variables of \<open>syscalls.cpp\<close> (\<open>openFds\<close>, \<open>dummyClock\<close>), the
  module's linear memory and the native calls made so far.
\<close>

record thread_env =
  memory :: memory
  openFds :: "I32 set"
  dummyClock :: I32
  hostCalls :: "host_call list"

definition native :: "host \<Rightarrow> host_call \<Rightarrow> thread_env \<Rightarrow> host_reply \<times> thread_env" where
  "native h c s = (h (hostCalls s) c, s\<lparr>hostCalls := hostCalls s @ [c]\<rparr>)"

definition HOSTS_FILE :: string where
  "HOSTS_FILE = ''/usr/share/faasm/net/hosts''"

definition RESOLV_FILE :: string where
  "RESOLV_FILE = ''/usr/share/faasm/net/resolv.conf''"

definition stdout_fileno :: I32 where
  "stdout_fileno = 1"

section \<open>File input and output\<close>

definition checkThreadOwnsFd :: "I32 \<Rightarrow> thread_env \<Rightarrow> exception + unit" where
  "checkThreadOwnsFd fd s =
     (if fd \<notin> openFds s then Inl calledUnimplementedIntrinsic else Inr ())"

definition syscall_open ::
  "host \<Rightarrow> I32 \<Rightarrow> I32 \<Rightarrow> I32 \<Rightarrow> thread_env \<Rightarrow> (exception + I32) \<times> thread_env" where
  "syscall_open h pathPtr flags mode s =
     (if mode \<noteq> 0 then (Inl calledUnimplementedIntrinsic, s)
      else case memoryRef_cstring (memory s) (I32_to_Uptr pathPtr) of
        Inl e \<Rightarrow> (Inl e, s)
      | Inr path \<Rightarrow>
          let (fd, s1) =
            (if path = c_str ''/etc/hosts'' then
               (let (r, s') = native h (H_open HOSTS_FILE) s in (ucast (ret r) :: I32, s'))
             else if path = c_str ''/etc/resolv.conf'' then
               (let (r, s') = native h (H_open RESOLV_FILE) s in (ucast (ret r) :: I32, s'))
             else (- 1, s))
          in if 0 <s fd then (Inr fd, s1\<lparr>openFds := insert fd (openFds s1)\<rparr>)
             else (Inl calledUnimplementedIntrinsic, s1))"

text \<open>
  The specification's Path Whitelist (sections 3 and 4.C), in its own words: a fixed
  mapping from guest paths to host paths with the two entries \<open>/etc/hosts\<close> and
  \<open>/etc/resolv.conf\<close>; \<open>resolve\<close> of any other path is \<open>None\<close>.
\<close>

definition whitelist :: "U8 list \<Rightarrow> string option" where
  "whitelist path =
     (if path = c_str ''/etc/hosts'' then Some HOSTS_FILE
      else if path = c_str ''/etc/resolv.conf'' then Some RESOLV_FILE
      else None)"

definition syscall_fcntl64 ::
  "I32 \<Rightarrow> I32 \<Rightarrow> I32 \<Rightarrow> thread_env \<Rightarrow> (exception + I32) \<times> thread_env" where
  "syscall_fcntl64 fd cmd c s =
     (case checkThreadOwnsFd fd s of
        Inl e \<Rightarrow> (Inl e, s)
      | Inr _ \<Rightarrow> (Inr 0, s))"

definition syscall_read ::
  "host \<Rightarrow> I32 \<Rightarrow> I32 \<Rightarrow> I32 \<Rightarrow> thread_env \<Rightarrow> (exception + I32) \<times> thread_env" where
  "syscall_read h fd bufPtr count s =
     (case checkThreadOwnsFd fd s of
        Inl e \<Rightarrow> (Inl e, s)
      | Inr _ \<Rightarrow>
         (case memoryArrayPtr_U8 (memory s) (I32_to_Uptr bufPtr) (I32_to_Uptr count) of
            Inl e \<Rightarrow> (Inl e, s)
          | Inr _ \<Rightarrow>
              let (r, s1) = native h (H_read fd (I32_to_Uptr count)) s;
                  s2 = s1\<lparr>memory := store_bytes (memory s1) (I32_to_Uptr bufPtr)
                                        (take (I32_to_Uptr count) (out_data r))\<rparr>
              in (Inr (ucast (ret r)), s2)))"

definition syscall_close :: "host \<Rightarrow> I32 \<Rightarrow> thread_env \<Rightarrow> (exception + I32) \<times> thread_env" where
  "syscall_close h fd s =
     (case checkThreadOwnsFd fd s of
        Inl e \<Rightarrow> (Inl e, s)
      | Inr _ \<Rightarrow>
          let s1 = s\<lparr>openFds := openFds s - {fd}\<rparr>;
              (r, s2) = native h (H_close fd) s1
          in (Inr 0, s2))"

text \<open>
  \<open>poll\<close> works on the native \<open>pollfd\<close> in place: 8 bytes in guest memory, the
  descriptor in the first four. The kernel stores \<open>revents\<close> into the same bytes.
\<close>

definition syscall_poll ::
  "host \<Rightarrow> I32 \<Rightarrow> I32 \<Rightarrow> I32 \<Rightarrow> thread_env \<Rightarrow> (exception + I32) \<times> thread_env" where
  "syscall_poll h fdsPtr nfds timeout s =
     (if nfds \<noteq> 1 then (Inl calledUnimplementedIntrinsic, s)
      else case memoryArrayPtr_U8 (memory s) (I32_to_Uptr fdsPtr) 8 of
        Inl e \<Rightarrow> (Inl e, s)
      | Inr fds \<Rightarrow>
         (case checkThreadOwnsFd (le_word (take 4 fds)) s of
            Inl e \<Rightarrow> (Inl e, s)
          | Inr _ \<Rightarrow>
              let (r, s1) = native h (H_poll fds timeout) s;
                  s2 = s1\<lparr>memory := store_bytes (memory s1) (I32_to_Uptr fdsPtr)
                                        (take 8 (out_data r))\<rparr>
              in (Inr (ucast (ret r)), s2)))"

text \<open>
  \<open>writev\<close>: the native iovec array is created first, by
  \<open>new(alloca(sizeof(iovec) * iovcnt)) struct iovec[iovcnt]\<close>; an array \<open>new\<close> with a
  negative length throws \<open>std::bad_array_new_length\<close>, before any guest memory is read.
  In the loop the counter is a \<open>U32\<close> compared with \<open>iovcnt\<close>, and the entry offsets
  \<open>iov + i * 8\<close> and \<open>iov + i * 8 + 4\<close> are computed in 32 bits.
\<close>

fun writev_loop :: "memory \<Rightarrow> I32 \<Rightarrow> U32 \<Rightarrow> nat \<Rightarrow> exception + U8 list list" where
  "writev_loop m iov i 0 = Inr []"
| "writev_loop m iov i (Suc n) =
     (case memoryRef_U32 m (U32_to_Uptr (iov + i * 8)) of
        Inl e \<Rightarrow> Inl e
      | Inr base \<Rightarrow>
         (case memoryRef_U32 m (U32_to_Uptr (iov + i * 8 + 4)) of
            Inl e \<Rightarrow> Inl e
          | Inr len \<Rightarrow>
             (case memoryArrayPtr_U8 m (U32_to_Uptr base) (U32_to_Uptr len) of
                Inl e \<Rightarrow> Inl e
              | Inr bytes \<Rightarrow>
                 (case writev_loop m iov (i + 1) n of
                    Inl e \<Rightarrow> Inl e
                  | Inr rest \<Rightarrow> Inr (bytes # rest)))))"

definition syscall_writev ::
  "host \<Rightarrow> I32 \<Rightarrow> I32 \<Rightarrow> I32 \<Rightarrow> thread_env \<Rightarrow> (exception + I32) \<times> thread_env" where
  "syscall_writev h fd iov iovcnt s =
     (if iovcnt <s 0 then (Inl bad_array_new_length, s)
      else case writev_loop (memory s) iov 0 (unat iovcnt) of
        Inl e \<Rightarrow> (Inl e, s)
      | Inr native_iovec \<Rightarrow>
          let (r, s1) = native h (H_writev stdout_fileno native_iovec) s
          in (Inr (ucast (ret r)), s1))"

text \<open>
  The specification's reading of \<open>writev\<close> (section 4.D), in its own words: entry \<open>i\<close>
  of the shadow iovec array is a pair of 32-bit words, base and length, at the 32-bit
  guest address \<open>iovPtr + 8 i\<close>; it designates the guest bytes at that base. The
  gathered bytes are the entries \<open>0\<close> to \<open>iovcnt - 1\<close>, or the first failure to
  translate one of them.
\<close>

definition shadow_iovec :: "memory \<Rightarrow> I32 \<Rightarrow> nat \<Rightarrow> exception + U8 list" where
  "shadow_iovec m iovPtr i =
     (case memoryRef_U32 m (U32_to_Uptr (iovPtr + 8 * word_of_nat i)) of
        Inl e \<Rightarrow> Inl e
      | Inr base \<Rightarrow>
         (case memoryRef_U32 m (U32_to_Uptr (iovPtr + 8 * word_of_nat i + 4)) of
            Inl e \<Rightarrow> Inl e
          | Inr len \<Rightarrow> memoryArrayPtr_U8 m (U32_to_Uptr base) (U32_to_Uptr len)))"

fun first_error :: "(exception + 'a) list \<Rightarrow> exception + 'a list" where
  "first_error [] = Inr []"
| "first_error (x # xs) =
     (case x of
        Inl e \<Rightarrow> Inl e
      | Inr v \<Rightarrow> (case first_error xs of Inl e \<Rightarrow> Inl e | Inr vs \<Rightarrow> Inr (v # vs)))"

definition gathered_iovecs :: "memory \<Rightarrow> I32 \<Rightarrow> nat \<Rightarrow> exception + U8 list list" where
  "gathered_iovecs m iovPtr iovcnt = first_error (map (shadow_iovec m iovPtr) [0..<iovcnt])"

section \<open>Sockets\<close>

definition sc_socket :: I32 where "sc_socket = 1"

definition sc_bind :: I32 where "sc_bind = 2"

definition sc_connect :: I32 where "sc_connect = 3"

definition sc_listen :: I32 where "sc_listen = 4"

definition sc_accept :: I32 where "sc_accept = 5"

definition sc_getsockname :: I32 where "sc_getsockname = 6"

definition sc_getpeername :: I32 where "sc_getpeername = 7"

definition sc_socketpair :: I32 where "sc_socketpair = 8"

definition sc_send :: I32 where "sc_send = 9"

definition sc_recv :: I32 where "sc_recv = 10"

definition sc_sendto :: I32 where "sc_sendto = 11"

definition sc_recvfrom :: I32 where "sc_recvfrom = 12"

definition sc_shutdown :: I32 where "sc_shutdown = 13"

definition sc_setsockopt :: I32 where "sc_setsockopt = 14"

definition sc_getsockopt :: I32 where "sc_getsockopt = 15"

definition sc_sendmsg :: I32 where "sc_sendmsg = 16"

definition sc_recvmsg :: I32 where "sc_recvmsg = 17"

definition sc_accept4 :: I32 where "sc_accept4 = 18"

definition sc_recvmmsg :: I32 where "sc_recvmmsg = 19"

definition sc_sendmmsg :: I32 where "sc_sendmmsg = 20"

text \<open>
  \<open>wasm_sockaddr\<close> and the native \<open>sockaddr\<close> are both 16 bytes (a 16-bit family and
  14 bytes of data), so a socket address is carried as its 16 bytes.
\<close>

definition sizeof_sockaddr :: nat where
  "sizeof_sockaddr = 16"

definition getSockAddr :: "memory \<Rightarrow> I32 \<Rightarrow> exception + U8 list" where
  "getSockAddr m addrPtr = memoryArrayPtr_U8 m (I32_to_Uptr addrPtr) sizeof_sockaddr"

definition setSockAddr :: "U8 list \<Rightarrow> I32 \<Rightarrow> memory \<Rightarrow> exception + memory" where
  "setSockAddr nativeSockAddr addrPtr m =
     (if validRange m (I32_to_Uptr addrPtr) sizeof_sockaddr
      then Inr (store_bytes m (I32_to_Uptr addrPtr) (take sizeof_sockaddr nativeSockAddr))
      else Inl outOfBoundsMemoryAccess)"

definition setSockLen :: "U32 \<Rightarrow> I32 \<Rightarrow> memory \<Rightarrow> exception + memory" where
  "setSockLen nativeValue wasmPtr m =
     (if validRange m (I32_to_Uptr wasmPtr) 4
      then Inr (store_U32 m (I32_to_Uptr wasmPtr) nativeValue)
      else Inl outOfBoundsMemoryAccess)"

text \<open>The four data-transfer sub-calls share one case of the switch.\<close>

definition socketcall_transfer ::
  "host \<Rightarrow> I32 \<Rightarrow> I32 \<Rightarrow> thread_env \<Rightarrow> (exception + I32) \<times> thread_env" where
  "socketcall_transfer h call argsPtr s =
     (let argCount = (if call = sc_sendto \<or> call = sc_recvfrom then 6 else 4 :: nat) in
      case memoryArrayPtr_U32 (memory s) (I32_to_Uptr argsPtr) argCount of
        Inl e \<Rightarrow> (Inl e, s)
      | Inr subCallArgs \<Rightarrow>
          let sockfd = subCallArgs ! 0;
              bufPtr = U32_to_Uptr (subCallArgs ! 1);
              bufLen = U32_to_Uptr (subCallArgs ! 2);
              flags = subCallArgs ! 3
          in case checkThreadOwnsFd sockfd s of
            Inl e \<Rightarrow> (Inl e, s)
          | Inr _ \<Rightarrow>
             (case memoryArrayPtr_U8 (memory s) bufPtr bufLen of
                Inl e \<Rightarrow> (Inl e, s)
              | Inr buf \<Rightarrow>
                  if call = sc_send then
                    (let (r, s1) = native h (H_send sockfd buf flags) s
                     in (Inr (ucast (ret r)), s1))
                  else if call = sc_recv then
                    (let (r, s1) = native h (H_recv sockfd bufLen flags) s;
                         s2 = s1\<lparr>memory := store_bytes (memory s1) bufPtr
                                               (take bufLen (out_data r))\<rparr>
                     in (Inr (ucast (ret r)), s2))
                  else
                    (let sockAddrPtr = subCallArgs ! 4 in
                     case getSockAddr (memory s) sockAddrPtr of
                       Inl e \<Rightarrow> (Inl e, s)
                     | Inr sockAddr \<Rightarrow>
                         let addrLen = subCallArgs ! 5 in
                         if call = sc_sendto then
                           (let (r, s1) = native h (H_sendto sockfd buf flags sockAddr) s
                            in (Inr (ucast (ret r)), s1))
                         else
                           (let (r, s1) = native h (H_recvfrom sockfd bufLen flags sockAddr) s;
                                s2 = s1\<lparr>memory := store_bytes (memory s1) bufPtr
                                                      (take bufLen (out_data r))\<rparr>
                            in case setSockAddr (out_addr r) sockAddrPtr (memory s2) of
                              Inl e \<Rightarrow> (Inl e, s2)
                            | Inr m3 \<Rightarrow>
                               (case setSockLen (out_len r) addrLen m3 of
                                  Inl e \<Rightarrow> (Inl e, s2\<lparr>memory := m3\<rparr>)
                                | Inr m4 \<Rightarrow> (Inr (ucast (ret r)), s2\<lparr>memory := m4\<rparr>))))))"

definition syscall_socketcall ::
  "host \<Rightarrow> I32 \<Rightarrow> I32 \<Rightarrow> thread_env \<Rightarrow> (exception + I32) \<times> thread_env" where
  "syscall_socketcall h call argsPtr s =
     (if call = sc_socket then
        (case memoryArrayPtr_U32 (memory s) (I32_to_Uptr argsPtr) 3 of
           Inl e \<Rightarrow> (Inl e, s)
         | Inr subCallArgs \<Rightarrow>
             let (r, s1) = native h (H_socket (subCallArgs ! 0) (subCallArgs ! 1)
                                             (subCallArgs ! 2)) s;
                 sock = (ucast (ret r) :: I32)
             in (Inr sock, s1\<lparr>openFds := insert sock (openFds s1)\<rparr>))
      else if call = sc_connect then
        (case memoryArrayPtr_U32 (memory s) (I32_to_Uptr argsPtr) 3 of
           Inl e \<Rightarrow> (Inl e, s)
         | Inr subCallArgs \<Rightarrow>
             let sockfd = subCallArgs ! 0; addrPtr = subCallArgs ! 1 in
             case checkThreadOwnsFd sockfd s of
               Inl e \<Rightarrow> (Inl e, s)
             | Inr _ \<Rightarrow>
                (case getSockAddr (memory s) addrPtr of
                   Inl e \<Rightarrow> (Inl e, s)
                 | Inr addr \<Rightarrow>
                     let (r, s1) = native h (H_connect sockfd addr) s
                     in (Inr (ucast (ret r)), s1)))
      else if call = sc_recv \<or> call = sc_recvfrom \<or> call = sc_sendto \<or> call = sc_send then
        socketcall_transfer h call argsPtr s
      else if call = sc_bind then
        (case memoryArrayPtr_U32 (memory s) (I32_to_Uptr argsPtr) 3 of
           Inl e \<Rightarrow> (Inl e, s)
         | Inr subCallArgs \<Rightarrow>
             let sockfd = subCallArgs ! 0; addrPtr = subCallArgs ! 1 in
             case getSockAddr (memory s) addrPtr of
               Inl e \<Rightarrow> (Inl e, s)
             | Inr addr \<Rightarrow>
                (case checkThreadOwnsFd sockfd s of
                   Inl e \<Rightarrow> (Inl e, s)
                 | Inr _ \<Rightarrow>
                     let (r, s1) = native h (H_bind sockfd addr) s
                     in (Inr (ucast (ret r)), s1)))
      else if call = sc_getsockname then
        (case memoryArrayPtr_U32 (memory s) (I32_to_Uptr argsPtr) 3 of
           Inl e \<Rightarrow> (Inl e, s)
         | Inr subCallArgs \<Rightarrow>
             let sockfd = subCallArgs ! 0; addrPtr = subCallArgs ! 1;
                 addrLenPtr = subCallArgs ! 2 in
             case checkThreadOwnsFd sockfd s of
               Inl e \<Rightarrow> (Inl e, s)
             | Inr _ \<Rightarrow>
                (case getSockAddr (memory s) addrPtr of
                   Inl e \<Rightarrow> (Inl e, s)
                 | Inr nativeAddr \<Rightarrow>
                     let (r, s1) = native h (H_getsockname sockfd nativeAddr) s in
                     case setSockAddr (out_addr r) addrPtr (memory s1) of
                       Inl e \<Rightarrow> (Inl e, s1)
                     | Inr m2 \<Rightarrow>
                        (case setSockLen (out_len r) addrLenPtr m2 of
                           Inl e \<Rightarrow> (Inl e, s1\<lparr>memory := m2\<rparr>)
                         | Inr m3 \<Rightarrow> (Inr (ucast (ret r)), s1\<lparr>memory := m3\<rparr>))))
      else if call = sc_getpeername \<or> call = sc_socketpair \<or> call = sc_shutdown
            \<or> call = sc_setsockopt \<or> call = sc_getsockopt \<or> call = sc_sendmsg
            \<or> call = sc_recvmsg \<or> call = sc_accept4 \<or> call = sc_recvmmsg
            \<or> call = sc_sendmmsg then (Inr 0, s)
      else if call = sc_accept then (Inl calledUnimplementedIntrinsic, s)
      else if call = sc_listen then (Inl calledUnimplementedIntrinsic, s)
      else (Inr 0, s))"

section \<open>Timing\<close>

text \<open>
  \<open>wasm_timespec\<close> is two \<open>I32\<close> fields, 8 bytes. The reference into guest memory is
  taken before the host clock is read; the return code of the host call is only logged.
\<close>

definition syscall_clock_gettime ::
  "host \<Rightarrow> I32 \<Rightarrow> I32 \<Rightarrow> thread_env \<Rightarrow> (exception + I32) \<times> thread_env" where
  "syscall_clock_gettime h clockId resultAddress s =
     (if \<not> validRange (memory s) (I32_to_Uptr resultAddress) 8
      then (Inl outOfBoundsMemoryAccess, s)
      else
        let (r, s1) = native h (H_clock_gettime clockId) s;
            m1 = store_U32 (memory s1) (I32_to_Uptr resultAddress) (ucast (out_sec r));
            m2 = store_U32 m1 (I32_to_Uptr resultAddress + 4) (ucast (out_nsec r))
        in (Inr 0, s1\<lparr>memory := m2, dummyClock := dummyClock s1 + 1\<rparr>))"

section \<open>Memory management\<close>

definition syscall_mmap ::
  "U32 \<Rightarrow> U32 \<Rightarrow> U32 \<Rightarrow> U32 \<Rightarrow> I32 \<Rightarrow> U32 \<Rightarrow> thread_env
     \<Rightarrow> (exception + I32) \<times> thread_env" where
  "syscall_mmap addr length' prot flags fd offset s =
     (if fd \<noteq> - 1 then (Inl calledUnimplementedIntrinsic, s)
      else
        let numPages = (unat length' + numBytesPerPage - 1) div numBytesPerPage;
            (basePageIndex, m1) = growMemory (memory s) numPages
        in (Inr (word_of_nat (basePageIndex * numBytesPerPage)), s\<lparr>memory := m1\<rparr>))"

definition syscall_brk :: "U32 \<Rightarrow> thread_env \<Rightarrow> (exception + I32) \<times> thread_env" where
  "syscall_brk addr s =
     (let targetPageCount = unat addr div numBytesPerPage;
          currentPageCount = getMemoryNumPages (memory s);
          currentBreak = (word_of_nat (currentPageCount * numBytesPerPage) :: U32)
      in if targetPageCount \<le> currentPageCount then (Inr currentBreak, s)
         else
           let expansion = targetPageCount - currentPageCount;
               (b, m1) = growMemory (memory s) expansion
           in (Inr currentBreak, s\<lparr>memory := m1\<rparr>))"

text \<open>A run of \<open>brk\<close> calls: the breaks returned, in order.\<close>

fun brk_sequence :: "U32 list \<Rightarrow> thread_env \<Rightarrow> U32 list" where
  "brk_sequence [] s = []"
| "brk_sequence (addr # addrs) s =
     (case syscall_brk addr s of
        (Inl e, s') \<Rightarrow> []
      | (Inr b, s') \<Rightarrow> b # brk_sequence addrs s')"

definition current_break :: "thread_env \<Rightarrow> U32" where
  "current_break s = word_of_nat (getMemoryNumPages (memory s) * numBytesPerPage)"

section \<open>The OpenMP runtime: team state\<close>

text \<open>
  Modelled from the spec: the class \<open>OMPLevel\<close> is declared in \<open>Level.h\<close>, which is not
  part of the sources. Its fields are those of the specification's Team (section 3):
  the team size, the nesting depth, the configured preferences and the team's locks. A
  lock holds the number of the thread that owns it, if any.
\<close>

record OMPLevel =
  depth :: I32
  max_active_level :: I32
  num_threads :: I32
  wanted_num_threads :: I32
  pushed_num_threads :: I32
  criticalSection :: "I32 option"
  reduceMutex :: "I32 option"

section \<open>Reductions\<close>





section \<open>Static loop partitioning\<close>

definition sch_static_chunked :: I32 where "sch_static_chunked = 33"

definition sch_static :: I32 where "sch_static = 34"

text \<open>C++ division of two \<open>int\<close>s truncates towards zero.\<close>

definition sdiv_I32 :: "I32 \<Rightarrow> I32 \<Rightarrow> I32" where
  "sdiv_I32 a b = word_of_int (sint a sdiv sint b)"

text \<open>
  The trip count of lines 459 to 469, an \<open>unsigned int\<close>. The last case divides by
  \<open>-incr\<close>, which is 0 when \<open>incr\<close> is.
\<close>

definition loop_tripCount :: "I32 \<Rightarrow> I32 \<Rightarrow> I32 \<Rightarrow> exception + U32" where
  "loop_tripCount lower upper incr =
     (if incr = 1 then Inr (upper - lower + 1)
      else if incr = - 1 then Inr (lower - upper + 1)
      else if 0 <s incr then Inr (sdiv_I32 (upper - lower) incr + 1)
      else if - incr = 0 then Inl integerDivideByZero
      else Inr (sdiv_I32 (lower - upper) (- incr) + 1))"

definition bool_I32 :: "bool \<Rightarrow> I32" where
  "bool_I32 b = (if b then 1 else 0)"

text \<open>
  The four pointer arguments are turned into host references first; the loop variables
  are then read and written in guest memory in the order of the source.
\<close>

definition kmpc_for_static_init_4 ::
  "OMPLevel \<Rightarrow> I32 \<Rightarrow> I32 \<Rightarrow> I32 \<Rightarrow> I32 \<Rightarrow> I32 \<Rightarrow> I32 \<Rightarrow> I32 \<Rightarrow> I32 \<Rightarrow> I32 \<Rightarrow> I32
     \<Rightarrow> memory \<Rightarrow> exception + memory" where
  "kmpc_for_static_init_4 thisLevel thisThreadNumber loc gtid schedule lastIterPtr lowerPtr
       upperPtr stridePtr incr chunk m =
     (let lastIter = I32_to_Uptr lastIterPtr; lower = I32_to_Uptr lowerPtr;
          upper = I32_to_Uptr upperPtr; stride = I32_to_Uptr stridePtr
      in
      if \<not> validRange m lastIter 4 then Inl outOfBoundsMemoryAccess
      else if \<not> validRange m lower 4 then Inl outOfBoundsMemoryAccess
      else if \<not> validRange m upper 4 then Inl outOfBoundsMemoryAccess
      else if \<not> validRange m stride 4 then Inl outOfBoundsMemoryAccess
      else if num_threads thisLevel = 1 then
        (let m1 = store_U32 m lastIter 1;
             m2 = store_U32 m1 stride
                    (if 0 <s incr then load_U32 m1 upper - load_U32 m1 lower + 1
                     else - (load_U32 m1 lower - load_U32 m1 upper + 1))
         in Inr m2)
      else
        case loop_tripCount (load_U32 m lower) (load_U32 m upper) incr of
          Inl e \<Rightarrow> Inl e
        | Inr tripCount \<Rightarrow>
            if schedule = sch_static_chunked then
              (let chunk' = (if chunk <s 1 then 1 else chunk);
                   span = chunk' * incr;
                   m1 = store_U32 m stride (span * num_threads thisLevel);
                   m2 = store_U32 m1 lower (load_U32 m1 lower + span * thisThreadNumber);
                   m3 = store_U32 m2 upper (load_U32 m2 lower + span - incr)
               in if num_threads thisLevel = 0 then Inl integerDivideByZero
                  else Inr (store_U32 m3 lastIter
                         (bool_I32 (thisThreadNumber =
                            ((tripCount - 1) div chunk') mod num_threads thisLevel))))
            else if schedule = sch_static then
              (if tripCount < num_threads thisLevel then
                 (let m1 =
                    (if thisThreadNumber < tripCount then
                       (let v = load_U32 m lower + thisThreadNumber * incr;
                            ma = store_U32 m lower v
                        in store_U32 ma upper v)
                     else store_U32 m lower (load_U32 m upper + incr));
                      m2 = store_U32 m1 lastIter (bool_I32 (thisThreadNumber = tripCount - 1))
                  in Inr (store_U32 m2 stride tripCount))
               else if num_threads thisLevel = 0 then Inl integerDivideByZero
               else
                 (let small_chunk = tripCount div num_threads thisLevel;
                      extras = tripCount mod num_threads thisLevel;
                      m1 = store_U32 m lower
                             (load_U32 m lower
                                + incr * (thisThreadNumber * small_chunk
                                     + (if thisThreadNumber < extras then thisThreadNumber
                                        else extras)));
                      m2 = store_U32 m1 upper
                             (load_U32 m1 lower + small_chunk * incr
                                - (if thisThreadNumber < extras then 0 else incr));
                      m3 = store_U32 m2 lastIter
                             (bool_I32 (thisThreadNumber = num_threads thisLevel - 1))
                  in Inr (store_U32 m3 stride tripCount)))
            else Inl (runtime_error ''Unimplemented scheduler''))"

text \<open>Reading a guest \<open>I32\<close> in the memory an intrinsic leaves behind.\<close>

definition result_word :: "exception + memory \<Rightarrow> I32 \<Rightarrow> I32 option" where
  "result_word r p =
     (case r of Inl e \<Rightarrow> None | Inr m \<Rightarrow> Some (load_U32 m (I32_to_Uptr p)))"

definition disjoint_words :: "I32 \<Rightarrow> I32 \<Rightarrow> bool" where
  "disjoint_words p q \<longleftrightarrow>
     I32_to_Uptr p + 4 \<le> I32_to_Uptr q \<or> I32_to_Uptr q + 4 \<le> I32_to_Uptr p"

text \<open>
  The four loop variables are four guest words inside linear memory that do not overlap
  one another.
\<close>

definition loop_cells :: "memory \<Rightarrow> I32 \<Rightarrow> I32 \<Rightarrow> I32 \<Rightarrow> I32 \<Rightarrow> bool" where
  "loop_cells m lastIterPtr lowerPtr upperPtr stridePtr \<longleftrightarrow>
     validRange m (I32_to_Uptr lastIterPtr) 4 \<and> validRange m (I32_to_Uptr lowerPtr) 4
     \<and> validRange m (I32_to_Uptr upperPtr) 4 \<and> validRange m (I32_to_Uptr stridePtr) 4
     \<and> disjoint_words lastIterPtr lowerPtr \<and> disjoint_words lastIterPtr upperPtr
     \<and> disjoint_words lastIterPtr stridePtr \<and> disjoint_words lowerPtr upperPtr
     \<and> disjoint_words lowerPtr stridePtr \<and> disjoint_words upperPtr stridePtr"

definition sign_I32 :: "I32 \<Rightarrow> I32" where
  "sign_I32 x = (if 0 <s x then 1 else if x = 0 then 0 else - 1)"

section \<open>The distributed fork\<close>

text \<open>
  The branch \<open>if (1 != userNumDevice)\<close> of \<open>__kmpc_fork_call\<close>. The scheduler, the
  message bus, the snapshot store and the shared counter are collaborators outside the
  sources; what they answer is a parameter of the model, and every call to them is
  recorded in order. Waiting for a result ends in one of three ways: the message with
  its return value, the bus's no-response exception (the timeout), or another
  exception.
\<close>

datatype bus_result = Returned I32 | RedisNoResponse | OtherException

record cluster =
  executing_call_id :: I32
  snapshot_size :: nat
  call_id :: "nat \<Rightarrow> I32"
  function_result :: "I32 \<Rightarrow> bus_result"
  reduce_total :: I64

datatype cluster_event =
    SetLong
  | SnapshotToState I32
  | CallFunction nat
  | NotifyAwaiting
  | GetFunctionResult I32
  | NotifyFinishedAwaiting
  | GetLong

text \<open>
  The static \<open>activeSnapshotKey\<close> is either the empty string (\<open>None\<close>) or
  \<open>omp_snapshot_{callId}\<close> for a call id (\<open>Some callId\<close>).
\<close>

record fork_env =
  fork_memory :: memory
  activeSnapshotKey :: "I32 option"
  threadSnapshotSize :: nat
  events :: "cluster_event list"

text \<open>
  The loop that creates the sub-invocations. Each round reads the argument pointers
  again; the first of them becomes \<open>reducePtr\<close>. The result is \<open>reducePtr\<close> (still null
  when no round set it) and the call ids stored in \<open>chainedThreads\<close>.
\<close>

fun spawn_loop ::
  "cluster \<Rightarrow> I32 \<Rightarrow> I32 \<Rightarrow> nat \<Rightarrow> nat \<Rightarrow> nat option \<Rightarrow> fork_env
     \<Rightarrow> (exception + nat option \<times> I32 list) \<times> fork_env" where
  "spawn_loop cl argc argsPtr threadNum 0 reducePtr s = (Inr (reducePtr, []), s)"
| "spawn_loop cl argc argsPtr threadNum (Suc n) reducePtr s =
     (case (if 0 <s argc then
              (case memoryArrayPtr_U32 (fork_memory s) (I32_to_Uptr argsPtr) (I32_to_Uptr argc) of
                 Inl e \<Rightarrow> Inl e
               | Inr pointers \<Rightarrow>
                  (case memoryRef_U32 (fork_memory s) (U32_to_Uptr (pointers ! 0)) of
                     Inl e \<Rightarrow> Inl e
                   | Inr v \<Rightarrow> Inr (Some (U32_to_Uptr (pointers ! 0)))))
            else Inr reducePtr) of
        Inl e \<Rightarrow> (Inl e, s)
      | Inr reducePtr' \<Rightarrow>
          let s1 = s\<lparr>events := events s @ [CallFunction threadNum]\<rparr> in
          (case spawn_loop cl argc argsPtr (Suc threadNum) n reducePtr' s1 of
             (Inl e, s2) \<Rightarrow> (Inl e, s2)
           | (Inr (p, ids), s2) \<Rightarrow> (Inr (p, call_id cl threadNum # ids), s2)))"

text \<open>
  The loop that collects the results: \<open>returnCode\<close> starts at 1 and is replaced only by
  the return value of a result that arrived; both \<open>catch\<close> clauses leave it at 1.
\<close>

definition returnCode_of :: "bus_result \<Rightarrow> I32" where
  "returnCode_of r = (case r of Returned v \<Rightarrow> v | RedisNoResponse \<Rightarrow> 1 | OtherException \<Rightarrow> 1)"

fun await_loop :: "cluster \<Rightarrow> I32 list \<Rightarrow> I64 \<Rightarrow> fork_env \<Rightarrow> I64 \<times> fork_env" where
  "await_loop cl [] numErrors s = (numErrors, s)"
| "await_loop cl (c # cs) numErrors s =
     (let s1 = s\<lparr>events := events s @ [NotifyAwaiting]\<rparr>;
          returnCode = returnCode_of (function_result cl c);
          s2 = s1\<lparr>events := events s1 @ [GetFunctionResult c, NotifyFinishedAwaiting]\<rparr>
      in await_loop cl cs (if returnCode \<noteq> 0 then numErrors + 1 else numErrors) s2)"

definition threads_exited_with_errors :: exception where
  "threads_exited_with_errors = runtime_error ''OMP threads have exited with errors''"

definition kmpc_fork_call_distributed ::
  "cluster \<Rightarrow> I32 \<Rightarrow> I32 \<Rightarrow> I32 \<Rightarrow> I32 \<Rightarrow> I32 \<Rightarrow> fork_env \<Rightarrow> (exception + unit) \<times> fork_env" where
  "kmpc_fork_call_distributed cl nextNumThreads locPtr argc microtaskPtr argsPtr s =
     (let s1 = s\<lparr>events := events s @ [SetLong]\<rparr> in
      if activeSnapshotKey s1 \<noteq> None then (Inl (runtime_error ''OMP already bound''), s1)
      else
        let callId = executing_call_id cl;
            s2 = s1\<lparr>activeSnapshotKey := Some callId, threadSnapshotSize := snapshot_size cl,
                    events := events s1 @ [SnapshotToState callId]\<rparr>
        in case spawn_loop cl argc argsPtr 0 (nat (sint nextNumThreads)) None s2 of
          (Inl e, s3) \<Rightarrow> (Inl e, s3)
        | (Inr (reducePtr, chainedThreads), s3) \<Rightarrow>
           (case await_loop cl chainedThreads 0 s3 of
              (numErrors, s4) \<Rightarrow>
                if numErrors \<noteq> 0 then (Inl threads_exited_with_errors, s4)
                else
                  (case reducePtr of
                     None \<Rightarrow> (Inl nullPointerDereference, s4\<lparr>events := events s4 @ [GetLong]\<rparr>)
                   | Some p \<Rightarrow>
                       (Inr (), s4\<lparr>events := events s4 @ [GetLong],
                                  fork_memory := store_U32 (fork_memory s4) p
                                                   (ucast (reduce_total cl))\<rparr>))))"

text \<open>The call ids whose results have been awaited, in order.\<close>

fun awaited :: "cluster_event list \<Rightarrow> I32 list" where
  "awaited [] = []"
| "awaited (GetFunctionResult c # es) = c # awaited es"
| "awaited (e # es) = awaited es"

text \<open>A sub-invocation erred or timed out: anything but a result with return value 0.\<close>

definition erred :: "bus_result \<Rightarrow> bool" where
  "erred r \<longleftrightarrow> r \<noteq> Returned 0"

text \<open>The argument pointers of the fork can be read, and so can the first shared variable.\<close>

definition fork_args_readable :: "memory \<Rightarrow> I32 \<Rightarrow> I32 \<Rightarrow> bool" where
  "fork_args_readable m argc argsPtr \<longleftrightarrow>
     (case memoryArrayPtr_U32 m (I32_to_Uptr argsPtr) (I32_to_Uptr argc) of
        Inl e \<Rightarrow> False
      | Inr pointers \<Rightarrow> validRange m (U32_to_Uptr (pointers ! 0)) 4)"

text \<open>
  The specification's reading of a static loop (sections 4.H and 8), in its own words.
  The iteration space of a loop with \<open>tripCount\<close> trips is the sequence of values
  \<open>lower\<close>, \<open>lower + incr\<close>, and so on. The balanced schedule gives thread \<open>tid\<close> a
  contiguous block of \<open>small + (tid < extras ? 1 : 0)\<close> iterations, where \<open>small\<close> is
  \<open>tripCount / num_threads\<close> and \<open>extras\<close> is \<open>tripCount % num_threads\<close>; the block of a
  thread starts where the blocks of the threads before it end.
\<close>

definition iterations :: "I32 \<Rightarrow> I32 \<Rightarrow> nat \<Rightarrow> I32 list" where
  "iterations lower incr n = map (\<lambda>k. lower + incr * word_of_nat k) [0..<n]"

definition block_size :: "nat \<Rightarrow> nat \<Rightarrow> nat \<Rightarrow> nat" where
  "block_size tc n t = tc div n + (if t < tc mod n then 1 else 0)"

definition block_start :: "nat \<Rightarrow> nat \<Rightarrow> nat \<Rightarrow> nat" where
  "block_start tc n t = sum_list (map (block_size tc n) [0..<t])"

definition thread_block :: "I32 \<Rightarrow> I32 \<Rightarrow> nat \<Rightarrow> nat \<Rightarrow> nat \<Rightarrow> I32 list" where
  "thread_block lower incr tc n t =
     take (block_size tc n t) (drop (block_start tc n t) (iterations lower incr tc))"

text \<open>
  The iteration space itself, from the bounds: the values between \<open>lower\<close> and
  \<open>upper\<close> (as signed integers, in the direction of \<open>incr\<close>) that are a whole number
  of steps away from \<open>lower\<close>.
\<close>

definition in_iteration_space :: "I32 \<Rightarrow> I32 \<Rightarrow> I32 \<Rightarrow> I32 \<Rightarrow> bool" where
  "in_iteration_space lower upper incr v \<longleftrightarrow>
     (if 0 <s incr then sint lower \<le> sint v \<and> sint v \<le> sint upper
      else sint upper \<le> sint v \<and> sint v \<le> sint lower)
     \<and> sint incr dvd sint v - sint lower"

text \<open>Thread \<open>t\<close> of the team running the partitioner on the loop variables in \<open>m\<close>.\<close>

definition static_init_of_thread ::
  "OMPLevel \<Rightarrow> nat \<Rightarrow> I32 \<Rightarrow> I32 \<Rightarrow> I32 \<Rightarrow> I32 \<Rightarrow> I32 \<Rightarrow> I32 \<Rightarrow> I32 \<Rightarrow> I32 \<Rightarrow> I32
     \<Rightarrow> memory \<Rightarrow> exception + memory" where
  "static_init_of_thread lvl t loc gtid schedule lastIterPtr lowerPtr upperPtr stridePtr incr
       chunk m =
     kmpc_for_static_init_4 lvl (word_of_nat t) loc gtid schedule lastIterPtr lowerPtr upperPtr
       stridePtr incr chunk m"

section \<open>Example inputs\<close>

text \<open>
  Concrete memories, hosts, teams and clusters, on which the properties below are
  evaluated.
\<close>

definition zero_memory :: "nat \<Rightarrow> memory" where
  "zero_memory n = \<lparr>mem_bytes = (\<lambda>_. 0), mem_numPages = n\<rparr>"

definition idle_host :: host where
  "idle_host tr c = \<lparr>ret = 0, out_data = [], out_addr = [], out_len = 0, out_sec = 0, out_nsec = 0\<rparr>"

definition fresh_env :: "memory \<Rightarrow> thread_env" where
  "fresh_env m = \<lparr>memory = m, openFds = {}, dummyClock = 0, hostCalls = []\<rparr>"

definition failing_clock_host :: host where
  "failing_clock_host tr c =
     \<lparr>ret = - 1, out_data = [], out_addr = [], out_len = 0, out_sec = 5, out_nsec = 7\<rparr>"

definition const_host :: "I64 \<Rightarrow> host" where
  "const_host r tr c = \<lparr>ret = r, out_data = [], out_addr = [], out_len = 0, out_sec = 0, out_nsec = 0\<rparr>"

definition list_memory :: "U8 list \<Rightarrow> nat \<Rightarrow> memory" where
  "list_memory bs n = \<lparr>mem_bytes = (\<lambda>a. if a < length bs then bs ! a else 0), mem_numPages = n\<rparr>"

definition hosts_env :: thread_env where
  "hosts_env = fresh_env (list_memory (c_str ''/etc/hosts'') 1)"

definition passwd_env :: thread_env where
  "passwd_env = fresh_env (list_memory (c_str ''/etc/passwd'') 1)"

definition socket_args_env :: thread_env where
  "socket_args_env =
     fresh_env (list_memory [7,0,0,0, 32,0,0,0, 16,0,0,0, 0,0,0,0, 32,0,0,0, 64,0,0,0] 1)"

definition bad_sockaddr_env :: thread_env where
  "bad_sockaddr_env =
     fresh_env (list_memory [7,0,0,0, 0xF0,0xFF,0xFF,0xFF, 16,0,0,0] 1)"

definition iovec_env :: thread_env where
  "iovec_env =
     fresh_env (list_memory [16,0,0,0, 2,0,0,0, 18,0,0,0, 3,0,0,0, 104,101,108,108,111] 1)"

definition team :: "I32 \<Rightarrow> OMPLevel" where
  "team n = \<lparr>depth = 1, max_active_level = 1, num_threads = n, wanted_num_threads = - 1,
             pushed_num_threads = - 1, criticalSection = None, reduceMutex = None\<rparr>"

definition loop_memory :: "U8 \<Rightarrow> U8 \<Rightarrow> memory" where
  "loop_memory lo up = list_memory [0,0,0,0, lo,0,0,0, up,0,0,0, 1,0,0,0] 1"

definition three_calls :: cluster where
  "three_calls =
     \<lparr>executing_call_id = 7, snapshot_size = 65536,
      call_id = (\<lambda>n. word_of_nat (100 + n)),
      function_result = (\<lambda>c. if c = 101 then Returned 3 else Returned 0),
      reduce_total = 42\<rparr>"

definition three_calls_ok :: cluster where
  "three_calls_ok = three_calls\<lparr>function_result := (\<lambda>c. Returned 0)\<rparr>"

definition wide_loop_memory :: memory where
  "wide_loop_memory = list_memory [0,0,0,0, 0,0,0,0x80, 0,0,0,0, 1,0,0,0] 1"

definition fork_start :: "I32 option \<Rightarrow> fork_env" where
  "fork_start key =
     \<lparr>fork_memory = list_memory [8,0,0,0, 0,0,0,0, 0,0,0,0] 1, activeSnapshotKey = key,
      threadSnapshotSize = 0, events = []\<rparr>"

section \<open>Properties of the memory syscalls\<close>

lemmas SocketCalls_defs =
  sc_socket_def sc_bind_def sc_connect_def sc_listen_def sc_accept_def sc_getsockname_def
  sc_getpeername_def sc_socketpair_def sc_send_def sc_recv_def sc_sendto_def sc_recvfrom_def
  sc_shutdown_def sc_setsockopt_def sc_getsockopt_def sc_sendmsg_def sc_recvmsg_def
  sc_accept4_def sc_recvmmsg_def sc_sendmmsg_def

lemma unat_break_exact:
  assumes "p < 65536"
  shows "unat (word_of_nat p * 65536 :: U32) = p * 65536"
proof -
  have "(word_of_nat p * 65536 :: U32) = word_of_nat (p * 65536)" by simp
  moreover have "unat (word_of_nat (p * 65536) :: U32) = (p * 65536) mod 2 ^ 32"
    by (simp only: unat_of_nat) simp
  moreover have "p * 65536 < 2 ^ 32" using assms by simp
  ultimately show ?thesis by simp
qed

lemma brk_result:
  "syscall_brk addr s =
     (Inr (current_break s),
      if unat addr div numBytesPerPage \<le> getMemoryNumPages (memory s) then s
      else s\<lparr>memory := (memory s)\<lparr>mem_numPages := unat addr div numBytesPerPage\<rparr>\<rparr>)"
  by (simp add: syscall_brk_def current_break_def growMemory_def Let_def getMemoryNumPages_def)

lemma brk_target_bound: "unat (addr :: U32) div numBytesPerPage < 65536"
proof -
  have "unat addr < 2 ^ 32" using unsigned_less [of addr] by simp
  then show ?thesis by (simp add: numBytesPerPage_def div_less_iff_less_mult)
qed

lemma brk_break_mono:
  "unat (current_break s) \<le> unat (current_break (snd (syscall_brk addr s)))"
proof (cases "unat addr div numBytesPerPage \<le> getMemoryNumPages (memory s)")
  case True
  then show ?thesis by (simp add: brk_result)
next
  case False
  let ?t = "unat addr div numBytesPerPage"
  have t: "?t < 65536" by (rule brk_target_bound)
  from False have p: "getMemoryNumPages (memory s) < ?t" by simp
  with t have p': "getMemoryNumPages (memory s) < 65536" by simp
  show ?thesis using False p t p'
    by (simp add: brk_result current_break_def getMemoryNumPages_def numBytesPerPage_def unat_break_exact)
qed

lemma brk_sequence_Cons:
  "brk_sequence (a # addrs) s = current_break s # brk_sequence addrs (snd (syscall_brk a s))"
  by (simp add: brk_result)

lemma brk_sequence_lower_bound:
  "\<forall>b \<in> set (brk_sequence addrs s). unat (current_break s) \<le> unat b"
proof (induction addrs arbitrary: s)
  case Nil
  then show ?case by simp
next
  case (Cons a addrs)
  have step: "unat (current_break s) \<le> unat (current_break (snd (syscall_brk a s)))"
    by (rule brk_break_mono)
  have "\<forall>b \<in> set (brk_sequence addrs (snd (syscall_brk a s))).
          unat (current_break (snd (syscall_brk a s))) \<le> unat b"
    by (rule Cons.IH)
  with step show ?case
    unfolding brk_sequence_Cons by (auto intro: order_trans)
qed

lemma brk_sequence_sorted: "sorted (map unat (brk_sequence addrs s))"
proof (induction addrs arbitrary: s)
  case Nil
  then show ?case by simp
next
  case (Cons a addrs)
  have "\<forall>b \<in> set (brk_sequence addrs (snd (syscall_brk a s))).
          unat (current_break s) \<le> unat b"
    using brk_sequence_lower_bound [of addrs "snd (syscall_brk a s)"] brk_break_mono [of s a]
    by (meson order_trans)
  with Cons.IH [of "snd (syscall_brk a s)"] show ?case
    unfolding brk_sequence_Cons by simp
qed

lemma brk_sequence_length: "length (brk_sequence addrs s) = length addrs"
  by (induction addrs arbitrary: s) (simp_all only: brk_sequence_Cons brk_sequence.simps list.size)

lemma ceil_div_nat:
  fixes a b :: nat
  assumes b: "0 < b"
  shows "(a + b - 1) div b = (if a mod b = 0 then a div b else a div b + 1)"
proof -
  define q where "q = a div b"
  define r where "r = a mod b"
  have r: "r < b" using b by (simp add: r_def)
  have a: "a = q * b + r" by (simp add: q_def r_def)
  show ?thesis
  proof (cases "r = 0")
    case True
    have "a + b - 1 = (b - 1) + q * b" using a True b by simp
    then have "(a + b - 1) div b = (b - 1) div b + q" using b by (simp only: div_mult_self1)
    moreover have "(b - 1) div b = 0" using b by simp
    ultimately show ?thesis using True by (simp add: q_def r_def)
  next
    case False
    have "a + b - 1 = (b + (r - 1)) + q * b" using a False b by simp
    then have "(a + b - 1) div b = (b + (r - 1)) div b + q" using b by (simp only: div_mult_self1)
    moreover have "(b + (r - 1)) div b = 1"
    proof -
      have "r - 1 < b" using r by simp
      then have "(r - 1) div b = 0" by simp
      moreover have "(b + (r - 1)) div b = (r - 1) div b + 1"
        using b by (simp only: div_add_self1)
      ultimately show ?thesis by simp
    qed
    ultimately show ?thesis using False by (simp add: q_def r_def)
  qed
qed

lemma mmap_result:
  "syscall_mmap addr l prot flags (- 1) offset s =
       (Inr (word_of_nat (getMemoryNumPages (memory s) * 65536)),
        s\<lparr>memory := (memory s)\<lparr>mem_numPages :=
             getMemoryNumPages (memory s) + (unat l + 65536 - 1) div 65536\<rparr>\<rparr>)"
  by (simp add: syscall_mmap_def growMemory_def numBytesPerPage_def getMemoryNumPages_def)

lemma mmap_file_backed:
  "fd \<noteq> - 1 \<Longrightarrow>
      syscall_mmap addr len prot flags fd offset s = (Inl calledUnimplementedIntrinsic, s)"
  by (simp add: syscall_mmap_def)

text \<open>
  Claim C4. \<open>__syscall_brk(addr)\<close> computes the target page count \<open>addr / 65536\<close>. If
  the target is at most the current page count it returns the current break (page count
  times page size, as a \<open>U32\<close>) and changes nothing; otherwise it grows the memory by
  the difference and still returns the break of before the growth. Over any run of
  \<open>brk\<close> calls every call returns, and the returned breaks, read as unsigned addresses,
  never decrease.
\<close>

theorem brk_pre_grow_break_monotonic:
  "(unat addr div 65536 \<le> getMemoryNumPages (memory s) \<longrightarrow>
      syscall_brk addr s =
        (Inr (word_of_nat (getMemoryNumPages (memory s) * 65536)), s))
   \<and> (getMemoryNumPages (memory s) < unat addr div 65536 \<longrightarrow>
      syscall_brk addr s =
        (Inr (word_of_nat (getMemoryNumPages (memory s) * 65536)),
         s\<lparr>memory := (memory s)\<lparr>mem_numPages :=
              getMemoryNumPages (memory s)
                + (unat addr div 65536 - getMemoryNumPages (memory s))\<rparr>\<rparr>))
   \<and> (getMemoryNumPages (memory s) < 65536 \<longrightarrow>
      (\<exists>b s'. syscall_brk addr s = (Inr b, s')
         \<and> unat b = getMemoryNumPages (memory s) * 65536))
   \<and> length (brk_sequence addrs s) = length addrs
   \<and> sorted (map unat (brk_sequence addrs s))"
  by (simp add: brk_result current_break_def numBytesPerPage_def brk_sequence_sorted
      brk_sequence_length unat_break_exact)

theorem brk_pre_grow_break_monotonic_witness:
  "unat (70000 :: U32) div 65536 \<le> getMemoryNumPages (memory (fresh_env (zero_memory 2)))
   \<and> getMemoryNumPages (memory (fresh_env (zero_memory 2))) < unat (200000 :: U32) div 65536
   \<and> getMemoryNumPages (memory (fresh_env (zero_memory 2))) < 65536
   \<and> syscall_brk 70000 (fresh_env (zero_memory 2)) = (Inr 131072, fresh_env (zero_memory 2))
   \<and> syscall_brk 200000 (fresh_env (zero_memory 2)) = (Inr 131072, fresh_env (zero_memory 3))
   \<and> sorted (map unat (brk_sequence [200000, 0, 70000, 400000] (fresh_env (zero_memory 2))))"
  using brk_pre_grow_break_monotonic [of 70000 "fresh_env (zero_memory 2)" "[200000, 0, 70000, 400000]"]
    brk_pre_grow_break_monotonic [of 200000 "fresh_env (zero_memory 2)" "[]"]
  by (simp add: fresh_env_def zero_memory_def getMemoryNumPages_def)

text \<open>
  Claim C7. \<open>__syscall_mmap\<close> throws the unimplemented-intrinsic exception whenever
  \<open>fd\<close> is not \<open>-1\<close>. With \<open>fd = -1\<close> the result does not depend on \<open>addr\<close>: the
  memory grows by the length divided by 65536 and rounded up, and the value returned is
  the page count of before the growth times 65536 (exactly so while that address fits
  32 bits). With two pages, a mapping of 130000 bytes returns \<open>2 * 65536\<close> and leaves
  four pages.
\<close>

theorem mmap_anonymous_only_grows:
  "(fd \<noteq> - 1 \<longrightarrow>
      syscall_mmap addr len prot flags fd offset s = (Inl calledUnimplementedIntrinsic, s))
   \<and> syscall_mmap addr len prot flags (- 1) offset s =
       (Inr (word_of_nat (getMemoryNumPages (memory s) * 65536)),
        s\<lparr>memory := (memory s)\<lparr>mem_numPages :=
             getMemoryNumPages (memory s)
               + (if unat len mod 65536 = 0 then unat len div 65536
                  else unat len div 65536 + 1)\<rparr>\<rparr>)
   \<and> (getMemoryNumPages (memory s) < 65536 \<longrightarrow>
      (\<exists>a s'. syscall_mmap addr len prot flags (- 1) offset s = (Inr a, s')
         \<and> unat a = getMemoryNumPages (memory s) * 65536))
   \<and> (getMemoryNumPages (memory s) = 2 \<longrightarrow>
      syscall_mmap 0 130000 prot flags (- 1) 0 s =
        (Inr (2 * 65536), s\<lparr>memory := (memory s)\<lparr>mem_numPages := 4\<rparr>\<rparr>))"
proof (intro conjI impI)
  assume "fd \<noteq> - 1"
  then show "syscall_mmap addr len prot flags fd offset s = (Inl calledUnimplementedIntrinsic, s)"
    by (rule mmap_file_backed)
next
  have "(unat len + 65536 - 1) div 65536 =
      (if unat len mod 65536 = 0 then unat len div 65536 else unat len div 65536 + 1)"
    by (rule ceil_div_nat) simp
  then show "syscall_mmap addr len prot flags (- 1) offset s =
       (Inr (word_of_nat (getMemoryNumPages (memory s) * 65536)),
        s\<lparr>memory := (memory s)\<lparr>mem_numPages :=
             getMemoryNumPages (memory s)
               + (if unat len mod 65536 = 0 then unat len div 65536
                  else unat len div 65536 + 1)\<rparr>\<rparr>)"
    by (simp only: mmap_result)
next
  assume "getMemoryNumPages (memory s) < 65536"
  then show "\<exists>a s'. syscall_mmap addr len prot flags (- 1) offset s = (Inr a, s')
         \<and> unat a = getMemoryNumPages (memory s) * 65536"
    by (simp add: mmap_result unat_break_exact)
next
  assume "getMemoryNumPages (memory s) = 2"
  then show "syscall_mmap 0 130000 prot flags (- 1) 0 s =
        (Inr (2 * 65536), s\<lparr>memory := (memory s)\<lparr>mem_numPages := 4\<rparr>\<rparr>)"
    by (simp add: mmap_result)
qed

theorem mmap_anonymous_only_grows_witness:
  "(3 :: I32) \<noteq> - 1
   \<and> getMemoryNumPages (memory (fresh_env (zero_memory 2))) < 65536
   \<and> getMemoryNumPages (memory (fresh_env (zero_memory 2))) = 2
   \<and> syscall_mmap 0 130000 0 0 3 0 (fresh_env (zero_memory 2)) =
       (Inl calledUnimplementedIntrinsic, fresh_env (zero_memory 2))
   \<and> syscall_mmap 0 130000 0 0 (- 1) 0 (fresh_env (zero_memory 2)) =
       (Inr 131072, fresh_env (zero_memory 4))"
  using mmap_anonymous_only_grows [of 3 0 130000 0 0 0 "fresh_env (zero_memory 2)"]
  by (simp add: fresh_env_def zero_memory_def getMemoryNumPages_def)

section \<open>Guest memory: loads after stores\<close>

lemma le_bytes_4:
  "le_bytes 4 w = [ucast w, ucast (drop_bit 8 w), ucast (drop_bit 16 w), ucast (drop_bit 24 w)]"
proof -
  have "le_bytes (Suc (Suc (Suc (Suc 0)))) w =
      [ucast w, ucast (drop_bit 8 w), ucast (drop_bit 8 (drop_bit 8 w)),
       ucast (drop_bit 8 (drop_bit 8 (drop_bit 8 w)))]"
    by (simp only: le_bytes.simps)
  moreover have "(4::nat) = Suc (Suc (Suc (Suc 0)))" by simp
  ultimately show ?thesis by (simp only: drop_bit_drop_bit) simp
qed

lemma le_word_4:
  "(le_word [b0, b1, b2, b3] :: U32) =
     ucast b0 OR push_bit 8 (ucast b1) OR push_bit 16 (ucast b2) OR push_bit 24 (ucast b3)"
  by (simp add: push_bit_or push_bit_push_bit ac_simps del: push_bit_or [symmetric])

lemma le_word_le_bytes_U32: "le_word (le_bytes 4 w) = (w :: U32)"
proof (rule bit_word_eqI)
  fix n assume n: "n < LENGTH(32)"
  then have n32: "n < 32" by simp
  consider "n < 8" | "8 \<le> n" "n < 16" | "16 \<le> n" "n < 24" | "24 \<le> n" "n < 32"
    using n32 by linarith
  then show "bit (le_word (le_bytes 4 w) :: U32) n = bit w n"
  proof cases
    case 1 then show ?thesis
      by (auto simp add: le_bytes_4 le_word_4 bit_or_iff bit_push_bit_iff bit_ucast_iff bit_drop_bit_eq)
  next
    case 2 then show ?thesis
      by (auto simp add: le_bytes_4 le_word_4 bit_or_iff bit_push_bit_iff bit_ucast_iff bit_drop_bit_eq)
  next
    case 3 then show ?thesis
      by (auto simp add: le_bytes_4 le_word_4 bit_or_iff bit_push_bit_iff bit_ucast_iff bit_drop_bit_eq)
  next
    case 4 then show ?thesis
      by (auto simp add: le_bytes_4 le_word_4 bit_or_iff bit_push_bit_iff bit_ucast_iff bit_drop_bit_eq)
  qed
qed

lemma store_bytes_numPages [simp]: "mem_numPages (store_bytes m off bs) = mem_numPages m"
  by (induction bs arbitrary: m off) simp_all

lemma store_bytes_outside:
  "a < off \<or> off + length bs \<le> a \<Longrightarrow> mem_bytes (store_bytes m off bs) a = mem_bytes m a"
  by (induction bs arbitrary: m off) auto

lemma store_bytes_inside:
  "off \<le> a \<Longrightarrow> a < off + length bs \<Longrightarrow> mem_bytes (store_bytes m off bs) a = bs ! (a - off)"
proof (induction bs arbitrary: m off)
  case Nil
  then show ?case by simp
next
  case (Cons b bs)
  show ?case
  proof (cases "a = off")
    case True
    then show ?thesis by (simp add: store_bytes_outside)
  next
    case False
    with Cons.prems have "Suc off \<le> a" "a < Suc off + length bs" by auto
    then have "mem_bytes (store_bytes (m\<lparr>mem_bytes := (mem_bytes m)(off := b)\<rparr>) (Suc off) bs) a
        = bs ! (a - Suc off)"
      by (rule Cons.IH)
    moreover have "(b # bs) ! (a - off) = bs ! (a - Suc off)"
      using False Cons.prems by (simp add: nth_Cons')
    ultimately show ?thesis by simp
  qed
qed

lemma load_bytes_cong:
  "(\<And>a. off \<le> a \<Longrightarrow> a < off + n \<Longrightarrow> mem_bytes m a = mem_bytes m' a)
     \<Longrightarrow> load_bytes m off n = load_bytes m' off n"
  by (induction n arbitrary: off) auto

lemma load_bytes_nth:
  "length bs = n \<Longrightarrow> (\<And>i. i < n \<Longrightarrow> mem_bytes m (off + i) = bs ! i) \<Longrightarrow> load_bytes m off n = bs"
proof (induction n arbitrary: off bs)
  case 0
  then show ?case by simp
next
  case (Suc n)
  then obtain b bs' where bs: "bs = b # bs'" by (cases bs) auto
  have "mem_bytes m off = b" using Suc.prems(2) [of 0] bs by simp
  moreover have "load_bytes m (Suc off) n = bs'"
  proof (rule Suc.IH)
    show "length bs' = n" using Suc.prems(1) bs by simp
    fix i assume "i < n"
    then show "mem_bytes m (Suc off + i) = bs' ! i"
      using Suc.prems(2) [of "Suc i"] bs by simp
  qed
  ultimately show ?case using bs by simp
qed

lemma length_le_bytes [simp]: "length (le_bytes n w) = n"
  by (induction n arbitrary: w) simp_all

lemma load_store_bytes_same:
  "load_bytes (store_bytes m off bs) off (length bs) = bs"
  by (rule load_bytes_nth) (simp_all add: store_bytes_inside)

lemma load_store_bytes_other:
  "off' + n \<le> off \<or> off + length bs \<le> off' \<Longrightarrow>
     load_bytes (store_bytes m off bs) off' n = load_bytes m off' n"
  by (rule load_bytes_cong) (auto simp: store_bytes_outside)

lemma load_store_U32_same [simp]: "load_U32 (store_U32 m a w) a = w"
proof -
  have "load_bytes (store_bytes m a (le_bytes 4 w)) a (length (le_bytes 4 w :: U8 list)) = le_bytes 4 w"
    by (rule load_store_bytes_same)
  then show ?thesis
    by (simp add: load_U32_def store_U32_def le_word_le_bytes_U32)
qed

lemma load_store_U32_other:
  "b + 4 \<le> a \<or> a + 4 \<le> b \<Longrightarrow> load_U32 (store_U32 m a w) b = load_U32 m b"
  by (simp add: load_U32_def store_U32_def load_store_bytes_other)

lemma store_U32_numPages [simp]: "mem_numPages (store_U32 m a w) = mem_numPages m"
  by (simp add: store_U32_def)

lemma validRange_store_U32 [simp]: "validRange (store_U32 m a w) off n = validRange m off n"
  by (simp add: validRange_def getMemoryNumPages_def)

section \<open>Properties of the clock\<close>

lemma clock_gettime_valid:
  assumes "validRange (memory s) (I32_to_Uptr resultAddress) 8"
  shows "syscall_clock_gettime h clockId resultAddress s =
     (Inr 0,
      s\<lparr>hostCalls := hostCalls s @ [H_clock_gettime clockId],
        memory := store_U32
          (store_U32 (memory s) (I32_to_Uptr resultAddress)
             (ucast (out_sec (h (hostCalls s) (H_clock_gettime clockId)))))
          (I32_to_Uptr resultAddress + 4)
          (ucast (out_nsec (h (hostCalls s) (H_clock_gettime clockId)))),
        dummyClock := dummyClock s + 1\<rparr>)"
  using assms by (simp add: syscall_clock_gettime_def native_def Let_def)

lemma I32_to_Uptr_16: "I32_to_Uptr 16 = 16"
  by (simp add: I32_to_Uptr_def unat_eq_nat_uint)

lemma I32_to_Uptr_minus16: "I32_to_Uptr (- 16) = 18446744073709551600"
  by (simp add: I32_to_Uptr_def unat_eq_nat_uint)

text \<open>
  Claim C10, as the code has it. For every clock id and every result address at which
  the 8 bytes of the shadow \<open>wasm_timespec\<close> lie inside guest memory,
  \<open>__syscall_clock_gettime\<close> returns 0 whatever the host clock call returns, writes
  the two truncated fields at the address and makes exactly that one native call. At a
  result address outside guest memory it faults before the host clock is read.
\<close>

theorem clock_gettime_returns_zero_in_bounds:
  "(validRange (memory s) (I32_to_Uptr resultAddress) 8 \<longrightarrow>
      (\<exists>s'. syscall_clock_gettime h clockId resultAddress s = (Inr 0, s')
         \<and> load_U32 (memory s') (I32_to_Uptr resultAddress) =
             ucast (out_sec (h (hostCalls s) (H_clock_gettime clockId)))
         \<and> load_U32 (memory s') (I32_to_Uptr resultAddress + 4) =
             ucast (out_nsec (h (hostCalls s) (H_clock_gettime clockId)))
         \<and> hostCalls s' = hostCalls s @ [H_clock_gettime clockId]))
   \<and> (\<not> validRange (memory s) (I32_to_Uptr resultAddress) 8 \<longrightarrow>
      syscall_clock_gettime h clockId resultAddress s = (Inl outOfBoundsMemoryAccess, s))"
proof (intro conjI impI)
  assume v: "validRange (memory s) (I32_to_Uptr resultAddress) 8"
  show "\<exists>s'. syscall_clock_gettime h clockId resultAddress s = (Inr 0, s')
         \<and> load_U32 (memory s') (I32_to_Uptr resultAddress) =
             ucast (out_sec (h (hostCalls s) (H_clock_gettime clockId)))
         \<and> load_U32 (memory s') (I32_to_Uptr resultAddress + 4) =
             ucast (out_nsec (h (hostCalls s) (H_clock_gettime clockId)))
         \<and> hostCalls s' = hostCalls s @ [H_clock_gettime clockId]"
    by (simp add: clock_gettime_valid [OF v] load_store_U32_other)
next
  assume "\<not> validRange (memory s) (I32_to_Uptr resultAddress) 8"
  then show "syscall_clock_gettime h clockId resultAddress s = (Inl outOfBoundsMemoryAccess, s)"
    by (simp add: syscall_clock_gettime_def)
qed

theorem clock_gettime_returns_zero_in_bounds_witness:
  "validRange (memory (fresh_env (zero_memory 1))) (I32_to_Uptr 16) 8
   \<and> ret (failing_clock_host [] (H_clock_gettime 99)) \<noteq> 0
   \<and> fst (syscall_clock_gettime failing_clock_host 99 16 (fresh_env (zero_memory 1))) = Inr 0
   \<and> \<not> validRange (memory (fresh_env (zero_memory 1))) (I32_to_Uptr (- 16)) 8
   \<and> syscall_clock_gettime failing_clock_host 99 (- 16) (fresh_env (zero_memory 1)) =
       (Inl outOfBoundsMemoryAccess, fresh_env (zero_memory 1))"
  using clock_gettime_returns_zero_in_bounds
          [of "fresh_env (zero_memory 1)" 16 failing_clock_host 99]
        clock_gettime_returns_zero_in_bounds
          [of "fresh_env (zero_memory 1)" "- 16" failing_clock_host 99]
  by (auto simp add: fresh_env_def zero_memory_def validRange_def getMemoryNumPages_def
      numBytesPerPage_def I32_to_Uptr_16 I32_to_Uptr_minus16 failing_clock_host_def)

text \<open>
  Claim C10 as stated, for every result address, fails: at the address \<open>-16\<close>, which
  the conversion to \<open>Uptr\<close> sign-extends beyond any linear memory, the call does not
  return 0.
\<close>

theorem clock_gettime_out_of_bounds_counterexample:
  "syscall_clock_gettime idle_host 0 (- 16) (fresh_env (zero_memory 1)) =
     (Inl outOfBoundsMemoryAccess, fresh_env (zero_memory 1))
   \<and> fst (syscall_clock_gettime idle_host 0 (- 16) (fresh_env (zero_memory 1))) \<noteq> Inr 0"
  by (simp add: syscall_clock_gettime_def fresh_env_def zero_memory_def validRange_def
      getMemoryNumPages_def numBytesPerPage_def I32_to_Uptr_minus16)

section \<open>Properties of open\<close>

lemma ucast_minus_1_I64_I32: "(ucast (- 1 :: I64) :: I32) = - 1"
  by (rule bit_word_eqI) (simp add: bit_simps)

lemma scan_cstring_found:
  "0 \<notin> set p \<Longrightarrow> (\<forall>i<length p. mem_bytes m (off + i) = p ! i)
     \<Longrightarrow> mem_bytes m (off + length p) = 0 \<Longrightarrow> length p < n
     \<Longrightarrow> scan_cstring m off n = Some p"
proof (induction p arbitrary: off n)
  case Nil
  then obtain n' where "n = Suc n'" by (cases n) auto
  with Nil show ?case by simp
next
  case (Cons b p)
  from Cons.prems(4) obtain n' where n: "n = Suc n'" and len: "length p < n'"
    by (cases n) auto
  have b: "mem_bytes m off = b" using Cons.prems(2) by auto
  have nz: "b \<noteq> 0" using Cons.prems(1) by auto
  have "scan_cstring m (Suc off) n' = Some p"
  proof (rule Cons.IH)
    show "0 \<notin> set p" using Cons.prems(1) by simp
    show "\<forall>i<length p. mem_bytes m (Suc off + i) = p ! i"
    proof (intro allI impI)
      fix i assume "i < length p"
      then have "mem_bytes m (off + Suc i) = (b # p) ! Suc i" using Cons.prems(2) by auto
      then show "mem_bytes m (Suc off + i) = p ! i" by simp
    qed
    show "mem_bytes m (Suc off + length p) = 0" using Cons.prems(3) by simp
    show "length p < n'" by (rule len)
  qed
  with n b nz show ?case by simp
qed

lemma memoryRef_cstring_list_memory:
  "0 \<notin> set p \<Longrightarrow> length p < n * 65536
     \<Longrightarrow> memoryRef_cstring (list_memory p n) 0 = Inr p"
proof -
  assume a: "0 \<notin> set p" "length p < n * 65536"
  have "scan_cstring (list_memory p n) 0 (n * 65536) = Some p"
    by (rule scan_cstring_found) (use a in \<open>simp_all add: list_memory_def\<close>)
  then show ?thesis
    by (simp add: memoryRef_cstring_def getMemoryNumPages_def numBytesPerPage_def list_memory_def)
qed

lemma I32_to_Uptr_0: "I32_to_Uptr 0 = 0"
  by (simp add: I32_to_Uptr_def)

lemma hosts_env_path:
  "memoryRef_cstring (memory hosts_env) (I32_to_Uptr 0) = Inr (c_str ''/etc/hosts'')"
  unfolding hosts_env_def fresh_env_def I32_to_Uptr_0
  by (simp add: c_str_def memoryRef_cstring_list_memory)

lemma passwd_env_path:
  "memoryRef_cstring (memory passwd_env) (I32_to_Uptr 0) = Inr (c_str ''/etc/passwd'')"
  unfolding passwd_env_def fresh_env_def I32_to_Uptr_0
  by (simp add: c_str_def memoryRef_cstring_list_memory)

lemma c_str_hosts_neq_resolv: "c_str ''/etc/hosts'' \<noteq> c_str ''/etc/resolv.conf''"
  by (simp add: c_str_def)

lemma open_nonzero_mode:
  "mode \<noteq> 0 \<Longrightarrow> syscall_open h pathPtr flags mode s = (Inl calledUnimplementedIntrinsic, s)"
  by (simp add: syscall_open_def)

lemma open_blocked:
  "memoryRef_cstring (memory s) (I32_to_Uptr pathPtr) = Inr path \<Longrightarrow> whitelist path = None
     \<Longrightarrow> syscall_open h pathPtr flags 0 s = (Inl calledUnimplementedIntrinsic, s)"
  by (simp add: syscall_open_def whitelist_def word_sless_alt split: if_splits)

lemma open_whitelisted:
  "memoryRef_cstring (memory s) (I32_to_Uptr pathPtr) = Inr path \<Longrightarrow> whitelist path = Some hostFile
     \<Longrightarrow> syscall_open h pathPtr flags 0 s =
       (if 0 <s (ucast (ret (h (hostCalls s) (H_open hostFile))) :: I32)
        then (Inr (ucast (ret (h (hostCalls s) (H_open hostFile)))),
              s\<lparr>hostCalls := hostCalls s @ [H_open hostFile],
                openFds := insert (ucast (ret (h (hostCalls s) (H_open hostFile)))) (openFds s)\<rparr>)
        else (Inl calledUnimplementedIntrinsic, s\<lparr>hostCalls := hostCalls s @ [H_open hostFile]\<rparr>))"
  by (auto simp add: syscall_open_def whitelist_def native_def Let_def c_str_hosts_neq_resolv
      split: if_splits)

lemma whitelist_hosts: "whitelist (c_str ''/etc/hosts'') = Some HOSTS_FILE"
  by (simp add: whitelist_def)

lemma whitelist_passwd: "whitelist (c_str ''/etc/passwd'') = None"
  by (simp add: whitelist_def c_str_def)

text \<open>
  Claim C2, as the code has it. \<open>__syscall_open\<close> throws the unimplemented-intrinsic
  exception for every nonzero mode, before reading the path, and for every guest path
  that is not one of the two whitelisted ones, without any native call. For a
  whitelisted path and mode 0 it opens the mapped host file; if the descriptor the host
  returns is greater than 0 it is inserted into the thread's registry and returned,
  otherwise (the host open failed) the call throws the same exception and the registry
  is unchanged.
\<close>

theorem open_whitelist_policy:
  "(mode \<noteq> 0 \<longrightarrow>
      syscall_open h pathPtr flags mode s = (Inl calledUnimplementedIntrinsic, s))
   \<and> (memoryRef_cstring (memory s) (I32_to_Uptr pathPtr) = Inr path \<and> whitelist path = None \<longrightarrow>
      syscall_open h pathPtr flags 0 s = (Inl calledUnimplementedIntrinsic, s))
   \<and> (memoryRef_cstring (memory s) (I32_to_Uptr pathPtr) = Inr path \<and> whitelist path = Some hostFile
        \<and> fd = ucast (ret (h (hostCalls s) (H_open hostFile))) \<longrightarrow>
      syscall_open h pathPtr flags 0 s =
        (if 0 <s fd
         then (Inr fd, s\<lparr>hostCalls := hostCalls s @ [H_open hostFile],
                         openFds := insert fd (openFds s)\<rparr>)
         else (Inl calledUnimplementedIntrinsic, s\<lparr>hostCalls := hostCalls s @ [H_open hostFile]\<rparr>)))"
proof (intro conjI impI)
  assume "mode \<noteq> 0"
  then show "syscall_open h pathPtr flags mode s = (Inl calledUnimplementedIntrinsic, s)"
    by (rule open_nonzero_mode)
next
  assume "memoryRef_cstring (memory s) (I32_to_Uptr pathPtr) = Inr path \<and> whitelist path = None"
  then show "syscall_open h pathPtr flags 0 s = (Inl calledUnimplementedIntrinsic, s)"
    by (simp add: open_blocked)
next
  assume a: "memoryRef_cstring (memory s) (I32_to_Uptr pathPtr) = Inr path
     \<and> whitelist path = Some hostFile \<and> fd = ucast (ret (h (hostCalls s) (H_open hostFile)))"
  then have "memoryRef_cstring (memory s) (I32_to_Uptr pathPtr) = Inr path"
    and "whitelist path = Some hostFile" by simp_all
  from open_whitelisted [OF this, of h flags] a
  show "syscall_open h pathPtr flags 0 s =
        (if 0 <s fd
         then (Inr fd, s\<lparr>hostCalls := hostCalls s @ [H_open hostFile],
                         openFds := insert fd (openFds s)\<rparr>)
         else (Inl calledUnimplementedIntrinsic, s\<lparr>hostCalls := hostCalls s @ [H_open hostFile]\<rparr>))"
    by simp
qed

theorem open_whitelist_policy_witness:
  "(1 :: I32) \<noteq> 0
   \<and> syscall_open (const_host 5) 0 0 1 hosts_env = (Inl calledUnimplementedIntrinsic, hosts_env)
   \<and> memoryRef_cstring (memory passwd_env) (I32_to_Uptr 0) = Inr (c_str ''/etc/passwd'')
   \<and> whitelist (c_str ''/etc/passwd'') = None
   \<and> syscall_open (const_host 5) 0 0 0 passwd_env = (Inl calledUnimplementedIntrinsic, passwd_env)
   \<and> memoryRef_cstring (memory hosts_env) (I32_to_Uptr 0) = Inr (c_str ''/etc/hosts'')
   \<and> whitelist (c_str ''/etc/hosts'') = Some HOSTS_FILE
   \<and> syscall_open (const_host 5) 0 0 0 hosts_env =
       (Inr 5, hosts_env\<lparr>hostCalls := [H_open HOSTS_FILE], openFds := {5}\<rparr>)"
  using open_whitelist_policy [where mode = 1 and h = "const_host 5" and pathPtr = 0 and flags = 0
          and s = hosts_env and path = "c_str ''/etc/hosts''" and hostFile = HOSTS_FILE and fd = 5]
    open_whitelist_policy [where mode = 1 and h = "const_host 5" and pathPtr = 0 and flags = 0
          and s = passwd_env and path = "c_str ''/etc/passwd''" and hostFile = HOSTS_FILE and fd = 5]
  by (simp add: hosts_env_path passwd_env_path whitelist_hosts whitelist_passwd const_host_def
      word_sless_alt)
     (simp add: hosts_env_def fresh_env_def)

text \<open>
  Claim C2 as stated promises a descriptor for every whitelisted path with mode 0. When
  the host cannot open the mapped file (\<open>open\<close> returns \<open>-1\<close>) the call throws instead,
  and nothing enters the registry.
\<close>

theorem open_host_failure_counterexample:
  "memoryRef_cstring (memory hosts_env) (I32_to_Uptr 0) = Inr (c_str ''/etc/hosts'')
   \<and> syscall_open (const_host (- 1)) 0 0 0 hosts_env =
       (Inl calledUnimplementedIntrinsic, hosts_env\<lparr>hostCalls := [H_open HOSTS_FILE]\<rparr>)
   \<and> openFds (snd (syscall_open (const_host (- 1)) 0 0 0 hosts_env)) = {}"
  using open_whitelisted [where s = hosts_env and pathPtr = 0 and path = "c_str ''/etc/hosts''"
          and hostFile = HOSTS_FILE and h = "const_host (- 1)" and flags = 0]
  by (simp add: hosts_env_path whitelist_hosts const_host_def ucast_minus_1_I64_I32 word_sless_alt)
     (simp add: hosts_env_def fresh_env_def)

section \<open>Properties of the descriptor registry\<close>

lemma load_bytes_numeral:
  "load_bytes m off (numeral k) = mem_bytes m off # load_bytes m (Suc off) (pred_numeral k)"
  by (simp add: numeral_eq_Suc)

lemma load_U32s_numeral:
  "load_U32s m off (numeral k) = load_U32 m off # load_U32s m (off + 4) (pred_numeral k)"
  by (simp add: numeral_eq_Suc)

lemma unowned_check:
  "fd \<notin> openFds s \<Longrightarrow> checkThreadOwnsFd fd s = Inl calledUnimplementedIntrinsic"
  by (simp add: checkThreadOwnsFd_def)

lemma unowned_read:
  "fd \<notin> openFds s \<Longrightarrow> syscall_read h fd bufPtr count s = (Inl calledUnimplementedIntrinsic, s)"
  by (simp add: syscall_read_def unowned_check)

lemma unowned_close:
  "fd \<notin> openFds s \<Longrightarrow> syscall_close h fd s = (Inl calledUnimplementedIntrinsic, s)"
  by (simp add: syscall_close_def unowned_check)

lemma unowned_fcntl64:
  "fd \<notin> openFds s \<Longrightarrow> syscall_fcntl64 fd cmd c s = (Inl calledUnimplementedIntrinsic, s)"
  by (simp add: syscall_fcntl64_def unowned_check)

lemma poll_many: "nfds \<noteq> 1 \<Longrightarrow> syscall_poll h fdsPtr nfds timeout s = (Inl calledUnimplementedIntrinsic, s)"
  by (simp add: syscall_poll_def)

lemma unowned_poll:
  "fd \<notin> openFds s \<Longrightarrow> memoryArrayPtr_U8 (memory s) (I32_to_Uptr fdsPtr) 8 = Inr fds
     \<Longrightarrow> le_word (take 4 fds) = fd
     \<Longrightarrow> syscall_poll h fdsPtr nfds timeout s = (Inl calledUnimplementedIntrinsic, s)"
  by (simp add: syscall_poll_def unowned_check)

lemma unowned_connect:
  "fd \<notin> openFds s \<Longrightarrow> memoryArrayPtr_U32 (memory s) (I32_to_Uptr argsPtr) 3 = Inr args
     \<Longrightarrow> args ! 0 = fd
     \<Longrightarrow> syscall_socketcall h sc_connect argsPtr s = (Inl calledUnimplementedIntrinsic, s)"
  by (simp add: syscall_socketcall_def SocketCalls_defs unowned_check)

lemma unowned_getsockname:
  "fd \<notin> openFds s \<Longrightarrow> memoryArrayPtr_U32 (memory s) (I32_to_Uptr argsPtr) 3 = Inr args
     \<Longrightarrow> args ! 0 = fd
     \<Longrightarrow> syscall_socketcall h sc_getsockname argsPtr s = (Inl calledUnimplementedIntrinsic, s)"
  by (simp add: syscall_socketcall_def SocketCalls_defs unowned_check)

lemma unowned_transfer4:
  "fd \<notin> openFds s \<Longrightarrow> memoryArrayPtr_U32 (memory s) (I32_to_Uptr argsPtr) 4 = Inr args
     \<Longrightarrow> args ! 0 = fd \<Longrightarrow> call = sc_send \<or> call = sc_recv
     \<Longrightarrow> syscall_socketcall h call argsPtr s = (Inl calledUnimplementedIntrinsic, s)"
  by (auto simp add: syscall_socketcall_def socketcall_transfer_def SocketCalls_defs unowned_check)

lemma unowned_transfer6:
  "fd \<notin> openFds s \<Longrightarrow> memoryArrayPtr_U32 (memory s) (I32_to_Uptr argsPtr) 6 = Inr args
     \<Longrightarrow> args ! 0 = fd \<Longrightarrow> call = sc_sendto \<or> call = sc_recvfrom
     \<Longrightarrow> syscall_socketcall h call argsPtr s = (Inl calledUnimplementedIntrinsic, s)"
  by (auto simp add: syscall_socketcall_def socketcall_transfer_def SocketCalls_defs unowned_check)

lemma unowned_bind_readable:
  "fd \<notin> openFds s \<Longrightarrow> memoryArrayPtr_U32 (memory s) (I32_to_Uptr argsPtr) 3 = Inr args
     \<Longrightarrow> args ! 0 = fd \<Longrightarrow> getSockAddr (memory s) (args ! 1) = Inr addr
     \<Longrightarrow> syscall_socketcall h sc_bind argsPtr s = (Inl calledUnimplementedIntrinsic, s)"
  by (simp add: syscall_socketcall_def SocketCalls_defs unowned_check)

lemma unowned_bind_traps:
  "fd \<notin> openFds s \<Longrightarrow> memoryArrayPtr_U32 (memory s) (I32_to_Uptr argsPtr) 3 = Inr args
     \<Longrightarrow> args ! 0 = fd
     \<Longrightarrow> \<exists>e. syscall_socketcall h sc_bind argsPtr s = (Inl e, s)"
  by (cases "getSockAddr (memory s) (args ! 1)")
     (simp_all add: syscall_socketcall_def SocketCalls_defs unowned_check)

lemma socket_args_env_pollfd:
  "memoryArrayPtr_U8 (memory socket_args_env) (I32_to_Uptr 0) 8 = Inr [7,0,0,0, 32,0,0,0]"
  by (simp add: socket_args_env_def fresh_env_def list_memory_def memoryArrayPtr_U8_def
      validRange_def getMemoryNumPages_def numBytesPerPage_def I32_to_Uptr_0 load_bytes_numeral)

lemma le_word_7: "(le_word (take 4 [7,0,0,0, 32,0,0,0]) :: I32) = 7"
  by simp

lemma socket_args_env_args6:
  "memoryArrayPtr_U32 (memory socket_args_env) (I32_to_Uptr 0) 6 = Inr [7, 32, 16, 0, 32, 64]"
  by (simp add: socket_args_env_def fresh_env_def list_memory_def memoryArrayPtr_U32_def
      validRange_def getMemoryNumPages_def numBytesPerPage_def I32_to_Uptr_0 load_U32s_numeral
      load_U32_def load_bytes_numeral)

lemma socket_args_env_args4:
  "memoryArrayPtr_U32 (memory socket_args_env) (I32_to_Uptr 0) 4 = Inr [7, 32, 16, 0]"
  by (simp add: socket_args_env_def fresh_env_def list_memory_def memoryArrayPtr_U32_def
      validRange_def getMemoryNumPages_def numBytesPerPage_def I32_to_Uptr_0 load_U32s_numeral
      load_U32_def load_bytes_numeral)

lemma socket_args_env_args3:
  "memoryArrayPtr_U32 (memory socket_args_env) (I32_to_Uptr 0) 3 = Inr [7, 32, 16]"
  by (simp add: socket_args_env_def fresh_env_def list_memory_def memoryArrayPtr_U32_def
      validRange_def getMemoryNumPages_def numBytesPerPage_def I32_to_Uptr_0 load_U32s_numeral
      load_U32_def load_bytes_numeral)

lemma I32_to_Uptr_32: "I32_to_Uptr 32 = 32"
  by (simp add: I32_to_Uptr_def unat_eq_nat_uint)

lemma socket_args_env_sockaddr:
  "\<exists>addr. getSockAddr (memory socket_args_env) ([7, 32, 16] ! 1) = Inr addr"
  by (simp add: socket_args_env_def fresh_env_def list_memory_def getSockAddr_def
      memoryArrayPtr_U8_def sizeof_sockaddr_def validRange_def getMemoryNumPages_def
      numBytesPerPage_def I32_to_Uptr_32)

lemma bad_sockaddr_env_args3:
  "memoryArrayPtr_U32 (memory bad_sockaddr_env) (I32_to_Uptr 0) 3 = Inr [7, 0xFFFFFFF0, 16]"
  by (simp add: bad_sockaddr_env_def fresh_env_def list_memory_def memoryArrayPtr_U32_def
      validRange_def getMemoryNumPages_def numBytesPerPage_def I32_to_Uptr_0 load_U32s_numeral
      load_U32_def load_bytes_numeral)

lemma I32_to_Uptr_high: "I32_to_Uptr 0xFFFFFFF0 = 18446744073709551600"
  by (simp add: I32_to_Uptr_def unat_eq_nat_uint)

text \<open>
  Claim C1, as the code has it. Let \<open>fd\<close> be a descriptor that is not in the calling
  thread's registry. Then \<open>read\<close>, \<open>close\<close> and \<open>fcntl64\<close> on \<open>fd\<close>, \<open>poll\<close> on a
  \<open>pollfd\<close> holding \<open>fd\<close>, and the socketcall sub-operations \<open>connect\<close>,
  \<open>getsockname\<close>, \<open>send\<close>, \<open>recv\<close>, \<open>sendto\<close> and \<open>recvfrom\<close> whose argument
  array starts with \<open>fd\<close> all end with the unimplemented-intrinsic exception and leave
  the thread's environment as it was: no native call has been made. \<open>bind\<close> also ends
  with an exception before any native call; the exception is the unimplemented-intrinsic
  one whenever the socket address at its second argument can be read, which \<open>bind\<close>
  does before it checks the descriptor.
\<close>

theorem unowned_fd_traps_before_any_host_call:
  "fd \<notin> openFds s \<Longrightarrow>
     syscall_read h fd bufPtr count s = (Inl calledUnimplementedIntrinsic, s)
   \<and> syscall_close h fd s = (Inl calledUnimplementedIntrinsic, s)
   \<and> syscall_fcntl64 fd cmd c s = (Inl calledUnimplementedIntrinsic, s)
   \<and> (memoryArrayPtr_U8 (memory s) (I32_to_Uptr fdsPtr) 8 = Inr fds \<and> le_word (take 4 fds) = fd \<longrightarrow>
        syscall_poll h fdsPtr nfds timeout s = (Inl calledUnimplementedIntrinsic, s))
   \<and> (memoryArrayPtr_U32 (memory s) (I32_to_Uptr argsPtr) 3 = Inr args3 \<and> args3 ! 0 = fd \<longrightarrow>
        syscall_socketcall h sc_connect argsPtr s = (Inl calledUnimplementedIntrinsic, s)
        \<and> syscall_socketcall h sc_getsockname argsPtr s = (Inl calledUnimplementedIntrinsic, s)
        \<and> (\<exists>e. syscall_socketcall h sc_bind argsPtr s = (Inl e, s))
        \<and> ((\<exists>addr. getSockAddr (memory s) (args3 ! 1) = Inr addr) \<longrightarrow>
             syscall_socketcall h sc_bind argsPtr s = (Inl calledUnimplementedIntrinsic, s)))
   \<and> (memoryArrayPtr_U32 (memory s) (I32_to_Uptr argsPtr) 4 = Inr args4 \<and> args4 ! 0 = fd \<longrightarrow>
        syscall_socketcall h sc_send argsPtr s = (Inl calledUnimplementedIntrinsic, s)
        \<and> syscall_socketcall h sc_recv argsPtr s = (Inl calledUnimplementedIntrinsic, s))
   \<and> (memoryArrayPtr_U32 (memory s) (I32_to_Uptr argsPtr) 6 = Inr args6 \<and> args6 ! 0 = fd \<longrightarrow>
        syscall_socketcall h sc_sendto argsPtr s = (Inl calledUnimplementedIntrinsic, s)
        \<and> syscall_socketcall h sc_recvfrom argsPtr s = (Inl calledUnimplementedIntrinsic, s))"
proof -
  assume u: "fd \<notin> openFds s"
  show ?thesis
  proof (intro conjI impI)
    show "syscall_read h fd bufPtr count s = (Inl calledUnimplementedIntrinsic, s)"
      using u by (rule unowned_read)
    show "syscall_close h fd s = (Inl calledUnimplementedIntrinsic, s)"
      using u by (rule unowned_close)
    show "syscall_fcntl64 fd cmd c s = (Inl calledUnimplementedIntrinsic, s)"
      using u by (rule unowned_fcntl64)
  next
    assume "memoryArrayPtr_U8 (memory s) (I32_to_Uptr fdsPtr) 8 = Inr fds \<and> le_word (take 4 fds) = fd"
    then show "syscall_poll h fdsPtr nfds timeout s = (Inl calledUnimplementedIntrinsic, s)"
      using u by (simp add: unowned_poll)
  next
    assume a: "memoryArrayPtr_U32 (memory s) (I32_to_Uptr argsPtr) 3 = Inr args3 \<and> args3 ! 0 = fd"
    show "syscall_socketcall h sc_connect argsPtr s = (Inl calledUnimplementedIntrinsic, s)"
      using u a by (simp add: unowned_connect)
    show "syscall_socketcall h sc_getsockname argsPtr s = (Inl calledUnimplementedIntrinsic, s)"
      using u a by (simp add: unowned_getsockname)
    show "\<exists>e. syscall_socketcall h sc_bind argsPtr s = (Inl e, s)"
      using u a by (simp add: unowned_bind_traps)
    assume "\<exists>addr. getSockAddr (memory s) (args3 ! 1) = Inr addr"
    then show "syscall_socketcall h sc_bind argsPtr s = (Inl calledUnimplementedIntrinsic, s)"
      using u a by (auto simp add: unowned_bind_readable)
  next
    assume a: "memoryArrayPtr_U32 (memory s) (I32_to_Uptr argsPtr) 4 = Inr args4 \<and> args4 ! 0 = fd"
    show "syscall_socketcall h sc_send argsPtr s = (Inl calledUnimplementedIntrinsic, s)"
      using u a by (simp add: unowned_transfer4)
    show "syscall_socketcall h sc_recv argsPtr s = (Inl calledUnimplementedIntrinsic, s)"
      using u a by (simp add: unowned_transfer4)
  next
    assume a: "memoryArrayPtr_U32 (memory s) (I32_to_Uptr argsPtr) 6 = Inr args6 \<and> args6 ! 0 = fd"
    show "syscall_socketcall h sc_sendto argsPtr s = (Inl calledUnimplementedIntrinsic, s)"
      using u a by (simp add: unowned_transfer6)
    show "syscall_socketcall h sc_recvfrom argsPtr s = (Inl calledUnimplementedIntrinsic, s)"
      using u a by (simp add: unowned_transfer6)
  qed
qed

theorem unowned_fd_traps_before_any_host_call_witness:
  "(7 :: I32) \<notin> openFds socket_args_env
   \<and> memoryArrayPtr_U8 (memory socket_args_env) (I32_to_Uptr 0) 8 = Inr [7,0,0,0, 32,0,0,0]
   \<and> (le_word (take 4 [7,0,0,0, 32,0,0,0]) :: I32) = 7
   \<and> memoryArrayPtr_U32 (memory socket_args_env) (I32_to_Uptr 0) 3 = Inr [7, 32, 16]
   \<and> memoryArrayPtr_U32 (memory socket_args_env) (I32_to_Uptr 0) 4 = Inr [7, 32, 16, 0]
   \<and> memoryArrayPtr_U32 (memory socket_args_env) (I32_to_Uptr 0) 6 = Inr [7, 32, 16, 0, 32, 64]
   \<and> (\<exists>addr. getSockAddr (memory socket_args_env) ([7, 32, 16] ! 1) = Inr addr)
   \<and> syscall_read idle_host 7 0 4 socket_args_env = (Inl calledUnimplementedIntrinsic, socket_args_env)
   \<and> syscall_close idle_host 7 socket_args_env = (Inl calledUnimplementedIntrinsic, socket_args_env)
   \<and> syscall_fcntl64 7 0 0 socket_args_env = (Inl calledUnimplementedIntrinsic, socket_args_env)
   \<and> syscall_poll idle_host 0 1 0 socket_args_env = (Inl calledUnimplementedIntrinsic, socket_args_env)
   \<and> syscall_socketcall idle_host sc_connect 0 socket_args_env = (Inl calledUnimplementedIntrinsic, socket_args_env)
   \<and> syscall_socketcall idle_host sc_getsockname 0 socket_args_env = (Inl calledUnimplementedIntrinsic, socket_args_env)
   \<and> syscall_socketcall idle_host sc_bind 0 socket_args_env = (Inl calledUnimplementedIntrinsic, socket_args_env)
   \<and> syscall_socketcall idle_host sc_send 0 socket_args_env = (Inl calledUnimplementedIntrinsic, socket_args_env)
   \<and> syscall_socketcall idle_host sc_recv 0 socket_args_env = (Inl calledUnimplementedIntrinsic, socket_args_env)
   \<and> syscall_socketcall idle_host sc_sendto 0 socket_args_env = (Inl calledUnimplementedIntrinsic, socket_args_env)
   \<and> syscall_socketcall idle_host sc_recvfrom 0 socket_args_env = (Inl calledUnimplementedIntrinsic, socket_args_env)"
proof -
  have u: "(7 :: I32) \<notin> openFds socket_args_env"
    by (simp add: socket_args_env_def fresh_env_def)
  note w = unowned_fd_traps_before_any_host_call [OF u, where h = idle_host and bufPtr = 0
      and count = 4 and cmd = 0 and c = 0 and fdsPtr = 0 and fds = "[7,0,0,0, 32,0,0,0]"
      and nfds = 1 and timeout = 0 and argsPtr = 0 and ?args3.0 = "[7, 32, 16]"
      and ?args4.0 = "[7, 32, 16, 0]" and ?args6.0 = "[7, 32, 16, 0, 32, 64]"]
  show ?thesis
    using u w socket_args_env_pollfd le_word_7 socket_args_env_args3 socket_args_env_args4
      socket_args_env_args6 socket_args_env_sockaddr
    by simp
qed

text \<open>
  Claim C1 as stated names the unimplemented-intrinsic exception for \<open>bind\<close> too. With
  descriptor 7 not in the registry and a socket address pointer outside guest memory,
  \<open>bind\<close> ends with the memory fault of \<open>getSockAddr\<close> instead.
\<close>

theorem bind_unreadable_sockaddr_counterexample:
  "(7 :: I32) \<notin> openFds bad_sockaddr_env
   \<and> memoryArrayPtr_U32 (memory bad_sockaddr_env) (I32_to_Uptr 0) 3 = Inr [7, 0xFFFFFFF0, 16]
   \<and> syscall_socketcall idle_host sc_bind 0 bad_sockaddr_env =
       (Inl outOfBoundsMemoryAccess, bad_sockaddr_env)
   \<and> fst (syscall_socketcall idle_host sc_bind 0 bad_sockaddr_env) \<noteq> Inl calledUnimplementedIntrinsic"
proof -
  have u: "(7 :: I32) \<notin> openFds bad_sockaddr_env"
    by (simp add: bad_sockaddr_env_def fresh_env_def)
  have g: "getSockAddr (memory bad_sockaddr_env) 0xFFFFFFF0 = Inl outOfBoundsMemoryAccess"
    by (simp add: bad_sockaddr_env_def fresh_env_def list_memory_def getSockAddr_def
      memoryArrayPtr_U8_def sizeof_sockaddr_def validRange_def getMemoryNumPages_def
      numBytesPerPage_def I32_to_Uptr_high)
  have r: "syscall_socketcall idle_host sc_bind 0 bad_sockaddr_env =
       (Inl outOfBoundsMemoryAccess, bad_sockaddr_env)"
    by (simp add: syscall_socketcall_def SocketCalls_defs bad_sockaddr_env_args3 g)
  show ?thesis using u r bad_sockaddr_env_args3 by simp
qed

section \<open>Properties of writev\<close>

lemma writev_loop_step:
  "writev_loop m iov (word_of_nat k) (Suc n) =
     (case shadow_iovec m iov k of
        Inl e \<Rightarrow> Inl e
      | Inr bytes \<Rightarrow>
         (case writev_loop m iov (word_of_nat (Suc k)) n of
            Inl e \<Rightarrow> Inl e
          | Inr rest \<Rightarrow> Inr (bytes # rest)))"
  by (simp add: shadow_iovec_def mult.commute add.commute split: sum.splits)

lemma writev_loop_gathers:
  "writev_loop m iov (word_of_nat k) n = first_error (map (shadow_iovec m iov) [k..<k + n])"
proof (induction n arbitrary: k)
  case 0
  then show ?case by simp
next
  case (Suc n)
  have upt: "[k..<k + Suc n] = k # [Suc k..<Suc k + n]"
    by (simp add: upt_conv_Cons)
  show ?case
    by (simp only: writev_loop_step Suc.IH upt list.map first_error.simps)
qed

lemma writev_loop_from_zero:
  "writev_loop m iov 0 n = gathered_iovecs m iov n"
  using writev_loop_gathers [of m iov 0 n] by (simp add: gathered_iovecs_def)

lemma iovec_env_entries:
  "shadow_iovec (memory iovec_env) 0 0 = Inr [104, 101]"
  "shadow_iovec (memory iovec_env) 0 (Suc 0) = Inr [108, 108, 111]"
  by (simp_all add: shadow_iovec_def memoryRef_U32_def memoryArrayPtr_U8_def
      validRange_def getMemoryNumPages_def numBytesPerPage_def U32_to_Uptr_def iovec_env_def
      fresh_env_def list_memory_def load_U32_def load_bytes_numeral)

lemma iovec_env_gathered:
  "gathered_iovecs (memory iovec_env) 0 2 = Inr [[104, 101], [108, 108, 111]]"
proof -
  have "[0..<2] = [0, Suc 0]" by (simp add: upt_rec)
  then show ?thesis by (simp add: gathered_iovecs_def iovec_env_entries)
qed

text \<open>
  Claim C9. For a count \<open>iovcnt\<close> that is not negative,
  \<open>__syscall_writev(fd, iovPtr, iovcnt)\<close> reads \<open>iovcnt\<close> shadow iovec entries from
  guest memory, each a base and a length at 8-byte stride from \<open>iovPtr\<close>, and hands the
  gathered guest bytes to the host \<open>writev\<close> on the standard output descriptor,
  returning the host's count converted to \<open>I32\<close>. A negative count ends in the
  exception of the array allocation, before guest memory is read. In every case the
  result is the same for every value of the guest's \<open>fd\<close> argument.
\<close>

theorem writev_always_writes_to_stdout:
  "(0 \<le>s iovcnt \<longrightarrow>
      syscall_writev h fd iov iovcnt s =
        (case gathered_iovecs (memory s) iov (unat iovcnt) of
           Inl e \<Rightarrow> (Inl e, s)
         | Inr bufs \<Rightarrow>
             (Inr (ucast (ret (h (hostCalls s) (H_writev stdout_fileno bufs)))),
              s\<lparr>hostCalls := hostCalls s @ [H_writev stdout_fileno bufs]\<rparr>)))
   \<and> (iovcnt <s 0 \<longrightarrow> syscall_writev h fd iov iovcnt s = (Inl bad_array_new_length, s))
   \<and> syscall_writev h fd iov iovcnt s = syscall_writev h fd' iov iovcnt s"
  by (simp add: syscall_writev_def writev_loop_from_zero native_def word_sless_alt word_sle_eq
      split: sum.splits)

theorem writev_always_writes_to_stdout_witness:
  "(0 :: I32) \<le>s 2
   \<and> syscall_writev (const_host 5) 99 0 2 iovec_env =
       (Inr 5, iovec_env\<lparr>hostCalls := [H_writev 1 [[104, 101], [108, 108, 111]]]\<rparr>)
   \<and> (- 1 :: I32) <s 0
   \<and> syscall_writev (const_host 5) 99 0 (- 1) iovec_env = (Inl bad_array_new_length, iovec_env)"
proof -
  have "hostCalls iovec_env = []" by (simp add: iovec_env_def fresh_env_def)
  then show ?thesis
    using writev_always_writes_to_stdout [of 2 "const_host 5" 99 0 iovec_env 99]
      writev_always_writes_to_stdout [of "- 1" "const_host 5" 99 0 iovec_env 99]
    by (simp add: iovec_env_gathered const_host_def stdout_fileno_def word_sless_alt word_sle_eq)
qed

section \<open>Properties of reductions\<close>






section \<open>Properties of the static loop partition\<close>

lemma load_store_disjoint:
  "disjoint_words p q \<Longrightarrow>
     load_U32 (store_U32 m (I32_to_Uptr p) w) (I32_to_Uptr q) = load_U32 m (I32_to_Uptr q)"
  "disjoint_words p q \<Longrightarrow>
     load_U32 (store_U32 m (I32_to_Uptr q) w) (I32_to_Uptr p) = load_U32 m (I32_to_Uptr p)"
  by (auto simp add: disjoint_words_def load_store_U32_other)

lemma static_init_single:
  assumes one: "num_threads lvl = 1"
    and cells: "loop_cells m lastIterPtr lowerPtr upperPtr stridePtr"
  shows "kmpc_for_static_init_4 lvl tid loc gtid schedule lastIterPtr lowerPtr upperPtr
           stridePtr incr chunk m =
         Inr (store_U32 (store_U32 m (I32_to_Uptr lastIterPtr) 1) (I32_to_Uptr stridePtr)
                (if 0 <s incr
                 then load_U32 m (I32_to_Uptr upperPtr) - load_U32 m (I32_to_Uptr lowerPtr) + 1
                 else - (load_U32 m (I32_to_Uptr lowerPtr) - load_U32 m (I32_to_Uptr upperPtr) + 1)))"
  using assms
  by (simp add: kmpc_for_static_init_4_def loop_cells_def Let_def load_store_disjoint)

lemma static_init_single_words:
  fixes tid loc gtid schedule incr chunk :: I32
  assumes one: "num_threads lvl = 1"
    and cells: "loop_cells m lastIterPtr lowerPtr upperPtr stridePtr"
  defines "r \<equiv> kmpc_for_static_init_4 lvl tid loc gtid schedule lastIterPtr lowerPtr upperPtr
           stridePtr incr chunk m"
  shows "result_word r lastIterPtr = Some 1"
    and "result_word r stridePtr =
          Some (if 0 <s incr
                then load_U32 m (I32_to_Uptr upperPtr) - load_U32 m (I32_to_Uptr lowerPtr) + 1
                else - (load_U32 m (I32_to_Uptr lowerPtr) - load_U32 m (I32_to_Uptr upperPtr) + 1))"
    and "result_word r lowerPtr = Some (load_U32 m (I32_to_Uptr lowerPtr))"
    and "result_word r upperPtr = Some (load_U32 m (I32_to_Uptr upperPtr))"
  using cells unfolding r_def static_init_single [OF one cells]
  by (simp_all add: result_word_def loop_cells_def load_store_disjoint)

lemma I32_to_Uptr_cells:
  "I32_to_Uptr 4 = 4" "I32_to_Uptr 8 = 8" "I32_to_Uptr 12 = 12"
  by (simp_all add: I32_to_Uptr_def unat_eq_nat_uint)

lemma loop_memory_cells: "loop_cells (loop_memory lo up) 0 4 8 12"
  by (simp add: loop_cells_def disjoint_words_def validRange_def getMemoryNumPages_def
      numBytesPerPage_def loop_memory_def list_memory_def I32_to_Uptr_0 I32_to_Uptr_cells)

lemma loop_memory_lower: "load_U32 (loop_memory lo up) (I32_to_Uptr 4) = ucast lo"
  by (simp add: loop_memory_def list_memory_def load_U32_def load_bytes_numeral I32_to_Uptr_cells)

lemma loop_memory_upper: "load_U32 (loop_memory lo up) (I32_to_Uptr 8) = ucast up"
  by (simp add: loop_memory_def list_memory_def load_U32_def load_bytes_numeral I32_to_Uptr_cells)

text \<open>
  Claim C8, as the code has it. When the team size is 1 and the four loop variables are
  distinct words of guest memory, \<open>__kmpc_for_static_init_4\<close> sets \<open>lastIter\<close> to true
  and \<open>stride\<close> to \<open>upper - lower + 1\<close> when \<open>incr > 0\<close> and to
  \<open>-(lower - upper + 1)\<close> otherwise, and returns for every schedule value, leaving
  \<open>lower\<close> and \<open>upper\<close> as they were. For \<open>incr > 0\<close> the stride is
  \<open>(upper - lower + 1) * sign(incr)\<close>.
\<close>

theorem static_init_single_thread:
  "num_threads lvl = 1 \<Longrightarrow> loop_cells m lastIterPtr lowerPtr upperPtr stridePtr \<Longrightarrow>
     result_word (kmpc_for_static_init_4 lvl tid loc gtid schedule lastIterPtr lowerPtr upperPtr
                    stridePtr incr chunk m) lastIterPtr = Some 1
   \<and> result_word (kmpc_for_static_init_4 lvl tid loc gtid schedule lastIterPtr lowerPtr upperPtr
                    stridePtr incr chunk m) stridePtr =
        Some (if 0 <s incr
              then load_U32 m (I32_to_Uptr upperPtr) - load_U32 m (I32_to_Uptr lowerPtr) + 1
              else - (load_U32 m (I32_to_Uptr lowerPtr) - load_U32 m (I32_to_Uptr upperPtr) + 1))
   \<and> (0 <s incr \<longrightarrow>
        result_word (kmpc_for_static_init_4 lvl tid loc gtid schedule lastIterPtr lowerPtr
                       upperPtr stridePtr incr chunk m) stridePtr =
          Some ((load_U32 m (I32_to_Uptr upperPtr) - load_U32 m (I32_to_Uptr lowerPtr) + 1)
                  * sign_I32 incr))
   \<and> result_word (kmpc_for_static_init_4 lvl tid loc gtid schedule lastIterPtr lowerPtr upperPtr
                    stridePtr incr chunk m) lowerPtr = Some (load_U32 m (I32_to_Uptr lowerPtr))
   \<and> result_word (kmpc_for_static_init_4 lvl tid loc gtid schedule lastIterPtr lowerPtr upperPtr
                    stridePtr incr chunk m) upperPtr = Some (load_U32 m (I32_to_Uptr upperPtr))"
  by (simp add: static_init_single_words sign_I32_def)

theorem static_init_single_thread_witness:
  "num_threads (team 1) = 1 \<and> loop_cells (loop_memory 0 9) 0 4 8 12 \<and> (0 :: I32) <s 1
   \<and> result_word (kmpc_for_static_init_4 (team 1) 0 0 0 77 0 4 8 12 1 0 (loop_memory 0 9)) 0 = Some 1
   \<and> result_word (kmpc_for_static_init_4 (team 1) 0 0 0 77 0 4 8 12 1 0 (loop_memory 0 9)) 12 = Some 10
   \<and> result_word (kmpc_for_static_init_4 (team 1) 0 0 0 77 0 4 8 12 1 0 (loop_memory 0 9)) 4 = Some 0
   \<and> result_word (kmpc_for_static_init_4 (team 1) 0 0 0 77 0 4 8 12 1 0 (loop_memory 0 9)) 8 = Some 9"
proof -
  have one: "num_threads (team 1) = 1" by (simp add: team_def)
  have pos: "(0 :: I32) <s 1" by (simp add: word_sless_alt)
  show ?thesis
    using static_init_single_thread [OF one loop_memory_cells [of 0 9], of 0 0 0 77 1 0] one pos
    by (simp add: loop_memory_cells loop_memory_lower loop_memory_upper)
qed

text \<open>
  Claim C8 as stated gives the stride as \<open>(upper - lower + 1) * sign(incr)\<close> for every
  increment. For the descending loop from 9 to 0 with \<open>incr = -1\<close> that would be 8; the
  code stores \<open>-(9 - 0 + 1) = -10\<close>.
\<close>

theorem static_init_negative_incr_counterexample:
  "num_threads (team 1) = 1
   \<and> load_U32 (loop_memory 9 0) (I32_to_Uptr 4) = 9
   \<and> load_U32 (loop_memory 9 0) (I32_to_Uptr 8) = 0
   \<and> result_word (kmpc_for_static_init_4 (team 1) 0 0 0 34 0 4 8 12 (- 1) 0 (loop_memory 9 0)) 12
       = Some (- 10)
   \<and> ((0 :: I32) - 9 + 1) * sign_I32 (- 1) = 8
   \<and> result_word (kmpc_for_static_init_4 (team 1) 0 0 0 34 0 4 8 12 (- 1) 0 (loop_memory 9 0)) 12
       \<noteq> Some (((0 :: I32) - 9 + 1) * sign_I32 (- 1))"
proof -
  have one: "num_threads (team 1) = 1" by (simp add: team_def)
  have neg: "\<not> (0 :: I32) <s - 1" by (simp add: word_sless_alt)
  have sgn: "sign_I32 (- 1) = - 1" by (simp add: sign_I32_def neg)
  show ?thesis
    using static_init_single_words(2) [OF one loop_memory_cells [of 9 0], of 0 0 0 34 "- 1" 0]
      one neg
    by (simp add: loop_memory_lower loop_memory_upper sgn)
qed

section \<open>Properties of the distributed fork\<close>

lemma awaited_append: "awaited (es @ fs) = awaited es @ awaited fs"
  by (induction es rule: awaited.induct) simp_all

lemma awaited_CallFunctions: "awaited (map CallFunction ns) = []"
  by (induction ns) simp_all

lemma spawn_loop_readable:
  assumes "\<not> 0 <s argc \<or> fork_args_readable (fork_memory s) argc argsPtr"
  shows "\<exists>p. spawn_loop cl argc argsPtr k n p0 s =
           (Inr (p, map (call_id cl) [k..<k + n]),
            s\<lparr>events := events s @ map CallFunction [k..<k + n]\<rparr>)
         \<and> (0 <s argc \<and> 0 < n \<longrightarrow> p \<noteq> None)"
  using assms
proof (induction n arbitrary: k p0 s)
  case 0
  then show ?case by simp
next
  case (Suc n)
  let ?s1 = "s\<lparr>events := events s @ [CallFunction k]\<rparr>"
  have upt: "[k..<k + Suc n] = k # [Suc k..<Suc k + n]" by (simp add: upt_conv_Cons)
  have mem: "fork_memory ?s1 = fork_memory s" by simp
  show ?case
  proof (cases "0 <s argc")
    case False
    from Suc.IH [of ?s1 "Suc k" p0] False
    obtain p where p: "spawn_loop cl argc argsPtr (Suc k) n p0 ?s1 =
        (Inr (p, map (call_id cl) [Suc k..<Suc k + n]),
         ?s1\<lparr>events := events ?s1 @ map CallFunction [Suc k..<Suc k + n]\<rparr>)"
      by auto
    show ?thesis using False p unfolding upt by simp
  next
    case True
    with Suc.prems have r: "fork_args_readable (fork_memory s) argc argsPtr" by simp
    then obtain pointers where ps:
      "memoryArrayPtr_U32 (fork_memory s) (I32_to_Uptr argsPtr) (I32_to_Uptr argc) = Inr pointers"
      and v: "validRange (fork_memory s) (U32_to_Uptr (pointers ! 0)) 4"
      by (auto simp: fork_args_readable_def split: sum.splits)
    from Suc.IH [of ?s1 "Suc k" "Some (U32_to_Uptr (pointers ! 0))"] r
    obtain p where p: "spawn_loop cl argc argsPtr (Suc k) n (Some (U32_to_Uptr (pointers ! 0))) ?s1 =
        (Inr (p, map (call_id cl) [Suc k..<Suc k + n]),
         ?s1\<lparr>events := events ?s1 @ map CallFunction [Suc k..<Suc k + n]\<rparr>)"
      and pn: "0 < n \<longrightarrow> p \<noteq> None"
      using True by auto
    have p0n: "n = 0 \<Longrightarrow> p = Some (U32_to_Uptr (pointers ! 0))"
      using p by simp
    show ?thesis using True ps v p pn p0n unfolding upt
      by (cases "n = 0") (simp_all add: memoryRef_U32_def)
  qed
qed

lemma returnCode_erred: "returnCode_of r \<noteq> 0 \<longleftrightarrow> erred r"
  by (cases r) (simp_all add: returnCode_of_def erred_def)

lemma await_loop_counts:
  "fst (await_loop cl cs numErrors s) =
     numErrors + word_of_nat (length (filter (\<lambda>c. erred (function_result cl c)) cs))"
  by (induction cs arbitrary: numErrors s) (simp_all add: Let_def returnCode_erred add.assoc)

lemma await_loop_events:
  "awaited (events (snd (await_loop cl cs numErrors s))) = awaited (events s) @ cs"
  by (induction cs arbitrary: numErrors s) (simp_all add: Let_def awaited_append)

lemma await_loop_memory:
  "fork_memory (snd (await_loop cl cs numErrors s)) = fork_memory s"
  by (induction cs arbitrary: numErrors s) (simp_all add: Let_def)

lemma count_nonzero:
  assumes "n < 2 ^ 64"
  shows "(word_of_nat n :: I64) \<noteq> 0 \<longleftrightarrow> 0 < n"
proof -
  have "unat (word_of_nat n :: I64) = n"
    using assms by (simp add: unat_of_nat take_bit_nat_eq_self)
  then show ?thesis by (metis neq0_conv unat_0 unat_eq_zero)
qed

lemma filter_nonempty_iff:
  "0 < length (filter P (map f [0..<n])) \<longleftrightarrow> (\<exists>i<n. P (f i))"
  by (auto simp add: filter_empty_conv length_greater_0_conv simp del: length_0_conv)

lemma fork_call_distributed_first:
  fixes nextNumThreads locPtr argc microtaskPtr argsPtr :: I32 and cl :: cluster
  assumes first: "activeSnapshotKey s = None"
    and args: "\<not> 0 <s argc \<or> fork_args_readable (fork_memory s) argc argsPtr"
  defines "n \<equiv> nat (sint nextNumThreads)"
  defines "r \<equiv> kmpc_fork_call_distributed cl nextNumThreads locPtr argc microtaskPtr argsPtr s"
  shows "awaited (events (snd r)) = awaited (events s) @ map (call_id cl) [0..<n]"
    and "fst r = Inl threads_exited_with_errors \<longleftrightarrow>
           (\<exists>i<n. erred (function_result cl (call_id cl i)))"
    and "0 <s argc \<Longrightarrow> 0 <s nextNumThreads \<Longrightarrow>
           isl (fst r) \<longleftrightarrow> (\<exists>i<n. erred (function_result cl (call_id cl i)))"
proof -
  let ?s2 = "s\<lparr>events := events s @ [SetLong],
               activeSnapshotKey := Some (executing_call_id cl),
               threadSnapshotSize := snapshot_size cl,
               events := (events s @ [SetLong]) @ [SnapshotToState (executing_call_id cl)]\<rparr>"
  let ?ids = "map (call_id cl) [0..<n]"
  have args2: "\<not> 0 <s argc \<or> fork_args_readable (fork_memory ?s2) argc argsPtr"
    using args by simp
  from spawn_loop_readable [OF args2, of cl 0 n None]
  obtain p where sp: "spawn_loop cl argc argsPtr 0 n None ?s2 =
      (Inr (p, ?ids), ?s2\<lparr>events := events ?s2 @ map CallFunction [0..<n]\<rparr>)"
    and pn: "0 <s argc \<and> 0 < n \<longrightarrow> p \<noteq> None"
    by auto
  let ?s3 = "?s2\<lparr>events := events ?s2 @ map CallFunction [0..<n]\<rparr>"
  let ?a = "await_loop cl ?ids 0 ?s3"
  let ?count = "length (filter (\<lambda>c. erred (function_result cl c)) ?ids)"
  have num: "fst ?a = word_of_nat ?count"
    by (simp add: await_loop_counts)
  have "n < 2 ^ 31"
  proof -
    have "sint nextNumThreads < 2147483648" using sint_lt [of nextNumThreads] by simp
    then have "nat (sint nextNumThreads) < 2147483648" by linarith
    then show ?thesis unfolding n_def by simp
  qed
  then have "?count < 2 ^ 64"
    using length_filter_le [of "\<lambda>c. erred (function_result cl c)" ?ids] by simp
  then have nz: "fst ?a \<noteq> 0 \<longleftrightarrow> 0 < ?count"
    unfolding num by (rule count_nonzero)
  have cnt: "0 < ?count \<longleftrightarrow> (\<exists>i<n. erred (function_result cl (call_id cl i)))"
    using filter_nonempty_iff [of "\<lambda>c. erred (function_result cl c)" "call_id cl" n] by simp
  have ev: "awaited (events (snd ?a)) = awaited (events s) @ ?ids"
    by (simp add: await_loop_events awaited_append awaited_CallFunctions)
  have r: "r = (if fst ?a \<noteq> 0 then (Inl threads_exited_with_errors, snd ?a)
                else (case p of
                        None \<Rightarrow> (Inl nullPointerDereference,
                                  (snd ?a)\<lparr>events := events (snd ?a) @ [GetLong]\<rparr>)
                      | Some q \<Rightarrow>
                          (Inr (), (snd ?a)\<lparr>events := events (snd ?a) @ [GetLong],
                                     fork_memory := store_U32 (fork_memory (snd ?a)) q
                                                      (ucast (reduce_total cl))\<rparr>)))"
    unfolding r_def kmpc_fork_call_distributed_def
    using first sp by (simp add: Let_def n_def split_beta split: option.splits)
  show "awaited (events (snd r)) = awaited (events s) @ ?ids"
    unfolding r using ev by (simp add: awaited_append split: option.splits)
  show "fst r = Inl threads_exited_with_errors \<longleftrightarrow>
           (\<exists>i<n. erred (function_result cl (call_id cl i)))"
    unfolding r using nz cnt
    by (simp add: threads_exited_with_errors_def split: option.splits)
  show "isl (fst r) \<longleftrightarrow> (\<exists>i<n. erred (function_result cl (call_id cl i)))"
    if "0 <s argc" "0 <s nextNumThreads"
  proof -
    have "0 < n" using that(2) unfolding n_def by (simp add: word_sless_alt)
    with pn that(1) have "p \<noteq> None" by simp
    then show ?thesis unfolding r using nz cnt by (auto split: option.splits)
  qed
qed

lemma fork_call_distributed_bound:
  "activeSnapshotKey s \<noteq> None \<Longrightarrow>
     kmpc_fork_call_distributed cl nextNumThreads locPtr argc microtaskPtr argsPtr s =
       (Inl (runtime_error ''OMP already bound''), s\<lparr>events := events s @ [SetLong]\<rparr>)"
  by (simp add: kmpc_fork_call_distributed_def Let_def)

lemma erred_cases:
  "erred RedisNoResponse" "erred OtherException" "v \<noteq> 0 \<Longrightarrow> erred (Returned v)"
  "\<not> erred (Returned 0)"
  by (simp_all add: erred_def)

lemma fork_start_readable: "fork_args_readable (fork_memory (fork_start key)) 1 0"
  by (simp add: fork_args_readable_def fork_start_def list_memory_def memoryArrayPtr_U32_def
      validRange_def getMemoryNumPages_def numBytesPerPage_def I32_to_Uptr_def U32_to_Uptr_def
      load_U32_def load_bytes_numeral)

lemma three_ids: "map (call_id three_calls) [0..<3] = [100, 101, 102]"
proof -
  have "[0..<3] = [0, Suc 0, Suc (Suc 0)]" by (simp add: upt_rec)
  then show ?thesis by (simp add: three_calls_def)
qed

text \<open>
  Claim C5, as the code has it. On the first distributed fork of a call (no snapshot key
  is active yet), with argument pointers that can be read, \<open>__kmpc_fork_call\<close> awaits
  the result of every one of its sub-invocations, in order, whatever the results are. A
  timeout, any other exception while waiting and a non-zero return code are counted
  alike, and the call ends with the failure "OMP threads have exited with errors" if and
  only if at least one sub-invocation erred or timed out: the failure is raised after
  all the results have been awaited. With at least one argument and at least one thread
  this is the only way the call fails.
\<close>

theorem distributed_fork_awaits_every_result:
  "activeSnapshotKey s = None \<Longrightarrow>
   \<not> 0 <s argc \<or> fork_args_readable (fork_memory s) argc argsPtr \<Longrightarrow>
     awaited (events (snd (kmpc_fork_call_distributed cl nextNumThreads locPtr argc
                             microtaskPtr argsPtr s)))
       = awaited (events s) @ map (call_id cl) [0..<nat (sint nextNumThreads)]
   \<and> (fst (kmpc_fork_call_distributed cl nextNumThreads locPtr argc microtaskPtr argsPtr s)
         = Inl threads_exited_with_errors
       \<longleftrightarrow> (\<exists>i<nat (sint nextNumThreads). erred (function_result cl (call_id cl i))))
   \<and> (0 <s argc \<and> 0 <s nextNumThreads \<longrightarrow>
        (isl (fst (kmpc_fork_call_distributed cl nextNumThreads locPtr argc microtaskPtr
                     argsPtr s))
         \<longleftrightarrow> (\<exists>i<nat (sint nextNumThreads). erred (function_result cl (call_id cl i)))))
   \<and> erred RedisNoResponse \<and> erred OtherException \<and> \<not> erred (Returned 0)
   \<and> (\<forall>v. v \<noteq> 0 \<longrightarrow> erred (Returned v))"
  using fork_call_distributed_first [where s = s and argc = argc and argsPtr = argsPtr
      and cl = cl and nextNumThreads = nextNumThreads and locPtr = locPtr
      and microtaskPtr = microtaskPtr]
  by (simp add: erred_cases)

theorem distributed_fork_awaits_every_result_witness:
  "activeSnapshotKey (fork_start None) = None
   \<and> fork_args_readable (fork_memory (fork_start None)) 1 0
   \<and> (0 :: I32) <s 1 \<and> (0 :: I32) <s 3
   \<and> erred (function_result three_calls (call_id three_calls 1))
   \<and> fst (kmpc_fork_call_distributed three_calls 3 0 1 5 0 (fork_start None))
       = Inl threads_exited_with_errors
   \<and> awaited (events (snd (kmpc_fork_call_distributed three_calls 3 0 1 5 0 (fork_start None))))
       = [100, 101, 102]"
proof -
  have k: "activeSnapshotKey (fork_start None) = None" by (simp add: fork_start_def)
  have e: "erred (function_result three_calls (call_id three_calls 1))"
    by (simp add: three_calls_def erred_def)
  have ex: "\<exists>i<nat (sint (3 :: I32)). erred (function_result three_calls (call_id three_calls i))"
    using e by (intro exI [of _ 1]) simp
  have ev: "events (fork_start None) = []" by (simp add: fork_start_def)
  have pos: "(0 :: I32) <s 1" "(0 :: I32) <s 3" by (simp_all add: word_sless_alt)
  from distributed_fork_awaits_every_result
         [OF k disjI2 [OF fork_start_readable], of three_calls 3 0 5]
  show ?thesis using k e ex ev pos fork_start_readable [of None]
    by (simp add: three_ids)
qed

text \<open>
  Claim C5 as stated lets the call fail only when a sub-invocation erred or timed out.
  A distributed fork that finds a snapshot key already active fails with "OMP already
  bound" before any sub-invocation is created or awaited.
\<close>

theorem distributed_fork_already_bound_counterexample:
  "isl (fst (kmpc_fork_call_distributed three_calls_ok 3 0 1 5 0 (fork_start (Some 7))))
   \<and> awaited (events (snd (kmpc_fork_call_distributed three_calls_ok 3 0 1 5 0
                             (fork_start (Some 7))))) = []
   \<and> \<not> erred (function_result three_calls_ok (call_id three_calls_ok 0))
   \<and> \<not> erred (function_result three_calls_ok (call_id three_calls_ok 1))
   \<and> \<not> erred (function_result three_calls_ok (call_id three_calls_ok 2))"
  by (simp add: fork_call_distributed_bound fork_start_def three_calls_ok_def erred_def)

section \<open>Properties of the balanced schedule\<close>

lemma block_start_Suc: "block_start tc n (Suc t) = block_start tc n t + block_size tc n t"
  by (simp add: block_start_def)

lemma block_start_closed: "block_start tc n t = t * (tc div n) + min t (tc mod n)"
proof (induction t)
  case 0
  then show ?case by (simp add: block_start_def)
next
  case (Suc t)
  show ?case
    unfolding block_start_Suc Suc.IH
    by (simp add: block_size_def min_def)
qed

lemma block_start_total:
  assumes "0 < n"
  shows "block_start tc n n = tc"
proof -
  have "tc mod n < n" using assms by simp
  then have "min n (tc mod n) = tc mod n" by simp
  then show ?thesis
    unfolding block_start_closed by (simp add: mult.commute)
qed

lemma block_end_le:
  assumes "t < n"
  shows "block_start tc n t + block_size tc n t \<le> tc"
proof -
  have "block_start tc n (Suc t) = Suc t * (tc div n) + min (Suc t) (tc mod n)"
    by (rule block_start_closed)
  moreover have "Suc t * (tc div n) \<le> n * (tc div n)"
    using assms by (intro mult_le_mono1) simp
  moreover have "min (Suc t) (tc mod n) \<le> tc mod n" by simp
  moreover have "n * (tc div n) + tc mod n = tc" by simp
  ultimately have "block_start tc n (Suc t) \<le> tc" by linarith
  then show ?thesis by (simp add: block_start_Suc)
qed

lemma block_size_pos:
  assumes "0 < n" "n \<le> tc"
  shows "0 < block_size tc n t"
proof -
  have "1 \<le> tc div n" using assms by (simp add: div_greater_zero_iff Suc_leI)
  then show ?thesis by (simp add: block_size_def)
qed

lemma length_iterations [simp]: "length (iterations lower incr n) = n"
  by (simp add: iterations_def)

lemma nth_iterations: "k < n \<Longrightarrow> iterations lower incr n ! k = lower + incr * word_of_nat k"
  by (simp add: iterations_def)

lemma length_thread_block:
  assumes "t < n"
  shows "length (thread_block lower incr tc n t) = block_size tc n t"
  using block_end_le [OF assms, of tc] by (simp add: thread_block_def)

lemma hd_thread_block:
  assumes "t < n" "0 < n" "n \<le> tc"
  shows "hd (thread_block lower incr tc n t) = lower + incr * word_of_nat (block_start tc n t)"
proof -
  have pos: "0 < block_size tc n t" using assms by (simp add: block_size_pos)
  have le: "block_start tc n t + block_size tc n t \<le> tc" using assms by (simp add: block_end_le)
  have lt: "block_start tc n t < tc" using pos le by linarith
  have "hd (thread_block lower incr tc n t) = drop (block_start tc n t) (iterations lower incr tc) ! 0"
    unfolding thread_block_def using pos lt by (simp add: hd_conv_nth)
  also have "\<dots> = iterations lower incr tc ! block_start tc n t"
    using lt by simp
  also have "\<dots> = lower + incr * word_of_nat (block_start tc n t)"
    using lt by (rule nth_iterations)
  finally show ?thesis .
qed

lemma last_thread_block:
  assumes "t < n" "0 < n" "n \<le> tc"
  shows "last (thread_block lower incr tc n t) =
           lower + incr * word_of_nat (block_start tc n t + block_size tc n t - 1)"
proof -
  have pos: "0 < block_size tc n t" using assms by (simp add: block_size_pos)
  have le: "block_start tc n t + block_size tc n t \<le> tc" using assms by (simp add: block_end_le)
  have len: "length (thread_block lower incr tc n t) = block_size tc n t"
    using assms(1) by (rule length_thread_block)
  have ne: "thread_block lower incr tc n t \<noteq> []" using len pos by auto
  have "last (thread_block lower incr tc n t) =
          thread_block lower incr tc n t ! (block_size tc n t - 1)"
    using ne len by (simp add: last_conv_nth)
  also have "\<dots> = iterations lower incr tc ! (block_start tc n t + (block_size tc n t - 1))"
    unfolding thread_block_def using pos le by simp
  also have "\<dots> = lower + incr * word_of_nat (block_start tc n t + (block_size tc n t - 1))"
    using pos le by (intro nth_iterations) linarith
  finally show ?thesis using pos by simp
qed

lemma concat_blocks_take:
  "concat (map (\<lambda>t. take (block_size tc n t) (drop (block_start tc n t) xs)) [0..<k]) =
     take (block_start tc n k) xs"
proof (induction k)
  case 0
  then show ?case by (simp add: block_start_def)
next
  case (Suc k)
  show ?case
    by (simp add: Suc.IH block_start_Suc take_add)
qed

lemma concat_thread_blocks:
  assumes "0 < n"
  shows "concat (map (thread_block lower incr tc n) [0..<n]) = iterations lower incr tc"
proof -
  have "concat (map (thread_block lower incr tc n) [0..<n]) =
          take (block_start tc n n) (iterations lower incr tc)"
    unfolding thread_block_def by (rule concat_blocks_take)
  then show ?thesis using assms by (simp add: block_start_total)
qed

lemma block_size_near: "block_size tc n t = tc div n \<or> block_size tc n t = tc div n + 1"
  by (simp add: block_size_def)

lemma team_size_unat:
  assumes "2 \<le>s (N :: I32)"
  shows "2 \<le> unat N"
proof -
  have s: "2 \<le> sint N" using assms by (simp add: word_sle_eq)
  have "sint N < 2 ^ (LENGTH(32) - 1)" by (rule sint_lt)
  then have "sint N < 2 ^ 32" by simp
  moreover have "0 \<le> sint N" using s by simp
  ultimately have "take_bit 32 (sint N) = sint N"
    by (rule take_bit_int_eq_self [rotated])
  then have "uint N = sint N" using uint_sint [of N] by simp
  with s have "2 \<le> uint N" by simp
  moreover have "unat N = nat (uint N)" by (rule unat_eq_nat_uint)
  ultimately show ?thesis by linarith
qed

lemma unat_of_nat_thread:
  assumes "t < unat (N :: I32)"
  shows "unat (word_of_nat t :: I32) = t"
proof -
  have "unat N < 2 ^ 32" using unsigned_less [of N] by simp
  with assms have "t < 2 ^ 32" by linarith
  then show ?thesis by (simp add: unat_of_nat take_bit_nat_eq_self)
qed

lemma balanced_index:
  fixes N tc :: I32
  assumes t: "t < unat N"
  shows "(word_of_nat t :: I32) * (tc div N)
           + (if (word_of_nat t :: I32) < tc mod N then word_of_nat t else tc mod N)
         = word_of_nat (block_start (unat tc) (unat N) t)"
proof -
  have ut: "unat (word_of_nat t :: I32) = t" using t by (rule unat_of_nat_thread)
  have small: "(word_of_nat (unat tc div unat N) :: I32) = tc div N"
    by (simp add: word_arith_nat_div)
  have extras: "(word_of_nat (unat tc mod unat N) :: I32) = tc mod N"
    by (simp add: word_arith_nat_mod)
  have lt: "(word_of_nat t :: I32) < tc mod N \<longleftrightarrow> t < unat tc mod unat N"
    by (simp add: word_less_nat_alt ut unat_mod)
  show ?thesis
    unfolding block_start_closed lt
    by (simp add: small extras min_def)
qed

lemma balanced_upper:
  fixes N tc L incr :: I32
  assumes t: "t < unat N" and n: "0 < unat N" and ge: "unat N \<le> unat tc"
  shows "L + incr * word_of_nat (block_start (unat tc) (unat N) t) + (tc div N) * incr
           - (if (word_of_nat t :: I32) < tc mod N then 0 else incr)
         = L + incr * word_of_nat (block_start (unat tc) (unat N) t
                                     + block_size (unat tc) (unat N) t - 1)"
proof -
  let ?q = "unat tc div unat N"
  let ?st = "block_start (unat tc) (unat N) t"
  have ut: "unat (word_of_nat t :: I32) = t" using t by (rule unat_of_nat_thread)
  have small: "(word_of_nat ?q :: I32) = tc div N"
    by (simp add: word_arith_nat_div)
  have lt: "(word_of_nat t :: I32) < tc mod N \<longleftrightarrow> t < unat tc mod unat N"
    by (simp add: word_less_nat_alt ut unat_mod)
  have q: "1 \<le> ?q" using n ge by (simp add: div_greater_zero_iff Suc_leI)
  show ?thesis
  proof (cases "t < unat tc mod unat N")
    case True
    then have "?st + block_size (unat tc) (unat N) t - 1 = ?st + ?q"
      by (simp add: block_size_def)
    then show ?thesis using True lt
      by (simp add: small [symmetric] algebra_simps)
  next
    case False
    then have e: "?st + block_size (unat tc) (unat N) t - 1 = ?st + (?q - 1)"
      using q by (simp add: block_size_def)
    have "?q = Suc (?q - 1)" using q by simp
    then have "(word_of_nat ?q :: I32) = word_of_nat (?q - 1) + 1"
      by (metis of_nat_Suc add.commute)
    then have qq: "tc div N = word_of_nat (?q - 1) + 1"
      using small by simp
    show ?thesis using False lt unfolding e qq
      by (simp add: algebra_simps)
  qed
qed

lemma last_thread_word:
  fixes N :: I32
  assumes t: "t < unat N" and n: "0 < unat N"
  shows "(word_of_nat t :: I32) = N - 1 \<longleftrightarrow> t = unat N - 1"
proof -
  have ut: "unat (word_of_nat t :: I32) = t" using t by (rule unat_of_nat_thread)
  have "N \<noteq> 0" using n by auto
  then have un: "unat (N - 1) = unat N - 1" by (simp add: unat_minus_one)
  show ?thesis
  proof
    assume "(word_of_nat t :: I32) = N - 1"
    then have "unat (word_of_nat t :: I32) = unat (N - 1)" by simp
    then show "t = unat N - 1" using ut un by simp
  next
    assume "t = unat N - 1"
    then have "unat (word_of_nat t :: I32) = unat (N - 1)" using ut un by simp
    then show "(word_of_nat t :: I32) = N - 1" by (simp only: word_unat_eq_iff)
  qed
qed

lemma static_balanced_raw:
  fixes lvl :: OMPLevel and tid :: I32
  assumes cells: "loop_cells m lastIterPtr lowerPtr upperPtr stridePtr"
    and n1: "num_threads lvl \<noteq> 1" and n0: "num_threads lvl \<noteq> 0"
    and tc: "loop_tripCount (load_U32 m (I32_to_Uptr lowerPtr))
               (load_U32 m (I32_to_Uptr upperPtr)) incr = Inr tc"
    and ge: "\<not> tc < num_threads lvl"
  shows "kmpc_for_static_init_4 lvl tid loc gtid sch_static lastIterPtr lowerPtr upperPtr
           stridePtr incr chunk m =
         Inr (store_U32
               (store_U32
                 (store_U32
                   (store_U32 m (I32_to_Uptr lowerPtr)
                      (load_U32 m (I32_to_Uptr lowerPtr)
                         + incr * (tid * (tc div num_threads lvl)
                             + (if tid < tc mod num_threads lvl then tid
                                else tc mod num_threads lvl))))
                   (I32_to_Uptr upperPtr)
                   (load_U32 m (I32_to_Uptr lowerPtr)
                      + incr * (tid * (tc div num_threads lvl)
                          + (if tid < tc mod num_threads lvl then tid
                             else tc mod num_threads lvl))
                      + (tc div num_threads lvl) * incr
                      - (if tid < tc mod num_threads lvl then 0 else incr)))
                 (I32_to_Uptr lastIterPtr) (bool_I32 (tid = num_threads lvl - 1)))
               (I32_to_Uptr stridePtr) tc)"
proof -
  have ns: "sch_static \<noteq> sch_static_chunked"
    by (simp add: sch_static_def sch_static_chunked_def)
  show ?thesis
    using cells n1 n0 ge ns
    by (simp add: kmpc_for_static_init_4_def tc Let_def loop_cells_def)
qed

lemma static_balanced_thread:
  fixes lvl :: OMPLevel and loc gtid chunk :: I32
  assumes cells: "loop_cells m lastIterPtr lowerPtr upperPtr stridePtr"
    and N2: "2 \<le>s num_threads lvl"
    and tc: "loop_tripCount (load_U32 m (I32_to_Uptr lowerPtr))
               (load_U32 m (I32_to_Uptr upperPtr)) incr = Inr tc"
    and ge: "num_threads lvl \<le> tc"
    and t: "t < unat (num_threads lvl)"
  defines "r \<equiv> static_init_of_thread lvl t loc gtid sch_static lastIterPtr lowerPtr upperPtr
                  stridePtr incr chunk m"
  defines "b \<equiv> thread_block (load_U32 m (I32_to_Uptr lowerPtr)) incr (unat tc)
                  (unat (num_threads lvl)) t"
  shows "result_word r lowerPtr = Some (hd b)"
    and "result_word r upperPtr = Some (last b)"
    and "result_word r stridePtr = Some tc"
    and "result_word r lastIterPtr = Some (bool_I32 (t = unat (num_threads lvl) - 1))"
    and "b \<noteq> []"
    and "length b = unat tc div unat (num_threads lvl)
         \<or> length b = unat tc div unat (num_threads lvl) + 1"
proof -
  let ?N = "num_threads lvl"
  let ?L = "load_U32 m (I32_to_Uptr lowerPtr)"
  have n2: "2 \<le> unat ?N" using N2 by (rule team_size_unat)
  then have npos: "0 < unat ?N" by simp
  have n1: "?N \<noteq> 1" using n2 by auto
  have n0: "?N \<noteq> 0" using n2 by auto
  have nge: "\<not> tc < ?N" using ge by simp
  have uge: "unat ?N \<le> unat tc" using ge by (simp add: word_le_nat_alt)
  have hd: "hd b = ?L + incr * word_of_nat (block_start (unat tc) (unat ?N) t)"
    unfolding b_def using t npos uge by (rule hd_thread_block)
  have last: "last b = ?L + incr * word_of_nat (block_start (unat tc) (unat ?N) t
                                                 + block_size (unat tc) (unat ?N) t - 1)"
    unfolding b_def using t npos uge by (rule last_thread_block)
  have len: "length b = block_size (unat tc) (unat ?N) t"
    unfolding b_def using t by (rule length_thread_block)
  have raw: "r = Inr (store_U32
               (store_U32
                 (store_U32
                   (store_U32 m (I32_to_Uptr lowerPtr) (hd b))
                   (I32_to_Uptr upperPtr) (last b))
                 (I32_to_Uptr lastIterPtr) (bool_I32 (t = unat ?N - 1)))
               (I32_to_Uptr stridePtr) tc)"
    unfolding r_def static_init_of_thread_def
      static_balanced_raw [OF cells n1 n0 tc nge]
      balanced_index [OF t] balanced_upper [OF t npos uge]
      last_thread_word [OF t npos] hd last
    by (rule refl)
  show "result_word r lowerPtr = Some (hd b)"
    unfolding raw using cells
    by (simp add: result_word_def loop_cells_def load_store_disjoint)
  show "result_word r upperPtr = Some (last b)"
    unfolding raw using cells
    by (simp add: result_word_def loop_cells_def load_store_disjoint)
  show "result_word r stridePtr = Some tc"
    unfolding raw by (simp add: result_word_def)
  show "result_word r lastIterPtr = Some (bool_I32 (t = unat ?N - 1))"
    unfolding raw using cells
    by (simp add: result_word_def loop_cells_def load_store_disjoint)
  show "b \<noteq> []"
    using len block_size_pos [OF npos uge, of t] by auto
  show "length b = unat tc div unat ?N \<or> length b = unat tc div unat ?N + 1"
    unfolding len by (rule block_size_near)
qed

lemma team_three: "2 \<le>s num_threads (team 3)" "num_threads (team 3) \<le> 10"
  "unat (num_threads (team 3)) = 3"
  by (simp_all add: team_def word_sle_eq)

lemma loop_memory_tripCount:
  "loop_tripCount (load_U32 (loop_memory 0 9) (I32_to_Uptr 4))
     (load_U32 (loop_memory 0 9) (I32_to_Uptr 8)) 1 = Inr 10"
  by (simp add: loop_memory_lower loop_memory_upper loop_tripCount_def)

lemma blocks_of_ten:
  "hd (thread_block 0 1 10 3 0) = 0" "last (thread_block 0 1 10 3 0) = 3"
  "hd (thread_block 0 1 10 3 (Suc 0)) = 4" "last (thread_block 0 1 10 3 (Suc 0)) = 6"
  "hd (thread_block 0 1 10 3 2) = 7" "last (thread_block 0 1 10 3 2) = 9"
  by (simp_all add: hd_thread_block last_thread_block block_start_closed block_size_def)

text \<open>
  What the balanced schedule does with the trip count it has computed, on a team of
  \<open>N \<ge> 2\<close> threads and a trip count of at least \<open>N\<close> (the four loop variables being
  distinct words of guest memory, each thread starting from the same values): thread
  \<open>t\<close> receives as \<open>lower\<close> and \<open>upper\<close> the first and the last value of its block,
  the blocks are not empty, their sizes are \<open>tripCount / N\<close> or one more, and the blocks
  of the threads 0 to \<open>N - 1\<close>, one after the other, are the first \<open>tripCount\<close> values
  from \<open>lower\<close> in steps of \<open>incr\<close>. \<open>lastIter\<close> is set for thread \<open>N - 1\<close> and for
  no other, and \<open>stride\<close> is the trip count. Whether these values are the iterations of
  the loop depends on the trip count alone.
\<close>

lemma static_balanced_blocks:
  "loop_cells m lastIterPtr lowerPtr upperPtr stridePtr \<Longrightarrow>
   2 \<le>s num_threads lvl \<Longrightarrow>
   loop_tripCount (load_U32 m (I32_to_Uptr lowerPtr)) (load_U32 m (I32_to_Uptr upperPtr)) incr
     = Inr tc \<Longrightarrow>
   num_threads lvl \<le> tc \<Longrightarrow>
     (\<forall>t<unat (num_threads lvl).
        thread_block (load_U32 m (I32_to_Uptr lowerPtr)) incr (unat tc)
          (unat (num_threads lvl)) t \<noteq> []
        \<and> result_word (static_init_of_thread lvl t loc gtid sch_static lastIterPtr lowerPtr
                          upperPtr stridePtr incr chunk m) lowerPtr
            = Some (hd (thread_block (load_U32 m (I32_to_Uptr lowerPtr)) incr (unat tc)
                          (unat (num_threads lvl)) t))
        \<and> result_word (static_init_of_thread lvl t loc gtid sch_static lastIterPtr lowerPtr
                          upperPtr stridePtr incr chunk m) upperPtr
            = Some (last (thread_block (load_U32 m (I32_to_Uptr lowerPtr)) incr (unat tc)
                            (unat (num_threads lvl)) t))
        \<and> result_word (static_init_of_thread lvl t loc gtid sch_static lastIterPtr lowerPtr
                          upperPtr stridePtr incr chunk m) stridePtr = Some tc
        \<and> result_word (static_init_of_thread lvl t loc gtid sch_static lastIterPtr lowerPtr
                          upperPtr stridePtr incr chunk m) lastIterPtr
            = Some (bool_I32 (t = unat (num_threads lvl) - 1))
        \<and> (length (thread_block (load_U32 m (I32_to_Uptr lowerPtr)) incr (unat tc)
                      (unat (num_threads lvl)) t) = unat tc div unat (num_threads lvl)
           \<or> length (thread_block (load_U32 m (I32_to_Uptr lowerPtr)) incr (unat tc)
                        (unat (num_threads lvl)) t) = unat tc div unat (num_threads lvl) + 1))
   \<and> concat (map (thread_block (load_U32 m (I32_to_Uptr lowerPtr)) incr (unat tc)
                    (unat (num_threads lvl))) [0..<unat (num_threads lvl)])
       = iterations (load_U32 m (I32_to_Uptr lowerPtr)) incr (unat tc)
   \<and> length (iterations (load_U32 m (I32_to_Uptr lowerPtr)) incr (unat tc)) = unat tc"
proof -
  assume cells: "loop_cells m lastIterPtr lowerPtr upperPtr stridePtr"
    and N2: "2 \<le>s num_threads lvl"
    and tc: "loop_tripCount (load_U32 m (I32_to_Uptr lowerPtr))
               (load_U32 m (I32_to_Uptr upperPtr)) incr = Inr tc"
    and ge: "num_threads lvl \<le> tc"
  have npos: "0 < unat (num_threads lvl)" using team_size_unat [OF N2] by simp
  show ?thesis
  proof (intro conjI allI impI)
    fix t assume t: "t < unat (num_threads lvl)"
    note th = static_balanced_thread [OF cells N2 tc ge t]
    show "thread_block (load_U32 m (I32_to_Uptr lowerPtr)) incr (unat tc)
            (unat (num_threads lvl)) t \<noteq> []"
      by (rule th(5))
    show "result_word (static_init_of_thread lvl t loc gtid sch_static lastIterPtr lowerPtr
                          upperPtr stridePtr incr chunk m) lowerPtr
            = Some (hd (thread_block (load_U32 m (I32_to_Uptr lowerPtr)) incr (unat tc)
                          (unat (num_threads lvl)) t))"
      by (rule th(1))
    show "result_word (static_init_of_thread lvl t loc gtid sch_static lastIterPtr lowerPtr
                          upperPtr stridePtr incr chunk m) upperPtr
            = Some (last (thread_block (load_U32 m (I32_to_Uptr lowerPtr)) incr (unat tc)
                            (unat (num_threads lvl)) t))"
      by (rule th(2))
    show "result_word (static_init_of_thread lvl t loc gtid sch_static lastIterPtr lowerPtr
                          upperPtr stridePtr incr chunk m) stridePtr = Some tc"
      by (rule th(3))
    show "result_word (static_init_of_thread lvl t loc gtid sch_static lastIterPtr lowerPtr
                          upperPtr stridePtr incr chunk m) lastIterPtr
            = Some (bool_I32 (t = unat (num_threads lvl) - 1))"
      by (rule th(4))
    show "length (thread_block (load_U32 m (I32_to_Uptr lowerPtr)) incr (unat tc)
                      (unat (num_threads lvl)) t) = unat tc div unat (num_threads lvl)
           \<or> length (thread_block (load_U32 m (I32_to_Uptr lowerPtr)) incr (unat tc)
                        (unat (num_threads lvl)) t) = unat tc div unat (num_threads lvl) + 1"
      by (rule th(6))
  next
    show "concat (map (thread_block (load_U32 m (I32_to_Uptr lowerPtr)) incr (unat tc)
                    (unat (num_threads lvl))) [0..<unat (num_threads lvl)])
       = iterations (load_U32 m (I32_to_Uptr lowerPtr)) incr (unat tc)"
      using npos by (rule concat_thread_blocks)
  next
    show "length (iterations (load_U32 m (I32_to_Uptr lowerPtr)) incr (unat tc)) = unat tc"
      by simp
  qed
qed

text \<open>
  Scenario S5: three threads and the loop from 0 to 9 give the ranges 0 to 3, 4 to 6 and
  7 to 9, stride 10, and \<open>lastIter\<close> for thread 2 only.
\<close>

lemma static_balanced_blocks_S5:
  "loop_cells (loop_memory 0 9) 0 4 8 12
   \<and> 2 \<le>s num_threads (team 3)
   \<and> loop_tripCount (load_U32 (loop_memory 0 9) (I32_to_Uptr 4))
         (load_U32 (loop_memory 0 9) (I32_to_Uptr 8)) 1 = Inr 10
   \<and> num_threads (team 3) \<le> 10
   \<and> result_word (static_init_of_thread (team 3) 0 0 0 sch_static 0 4 8 12 1 0 (loop_memory 0 9)) 4 = Some 0
   \<and> result_word (static_init_of_thread (team 3) 0 0 0 sch_static 0 4 8 12 1 0 (loop_memory 0 9)) 8 = Some 3
   \<and> result_word (static_init_of_thread (team 3) 0 0 0 sch_static 0 4 8 12 1 0 (loop_memory 0 9)) 12 = Some 10
   \<and> result_word (static_init_of_thread (team 3) 0 0 0 sch_static 0 4 8 12 1 0 (loop_memory 0 9)) 0 = Some 0
   \<and> result_word (static_init_of_thread (team 3) 1 0 0 sch_static 0 4 8 12 1 0 (loop_memory 0 9)) 4 = Some 4
   \<and> result_word (static_init_of_thread (team 3) 1 0 0 sch_static 0 4 8 12 1 0 (loop_memory 0 9)) 8 = Some 6
   \<and> result_word (static_init_of_thread (team 3) 1 0 0 sch_static 0 4 8 12 1 0 (loop_memory 0 9)) 12 = Some 10
   \<and> result_word (static_init_of_thread (team 3) 1 0 0 sch_static 0 4 8 12 1 0 (loop_memory 0 9)) 0 = Some 0
   \<and> result_word (static_init_of_thread (team 3) 2 0 0 sch_static 0 4 8 12 1 0 (loop_memory 0 9)) 4 = Some 7
   \<and> result_word (static_init_of_thread (team 3) 2 0 0 sch_static 0 4 8 12 1 0 (loop_memory 0 9)) 8 = Some 9
   \<and> result_word (static_init_of_thread (team 3) 2 0 0 sch_static 0 4 8 12 1 0 (loop_memory 0 9)) 12 = Some 10
   \<and> result_word (static_init_of_thread (team 3) 2 0 0 sch_static 0 4 8 12 1 0 (loop_memory 0 9)) 0 = Some 1"
proof -
  note p = static_balanced_blocks [OF loop_memory_cells [of 0 9] team_three(1)
      loop_memory_tripCount team_three(2), where loc = 0 and gtid = 0 and chunk = 0]
  have all: "\<forall>t<3.
      result_word (static_init_of_thread (team 3) t 0 0 sch_static 0 4 8 12 1 0 (loop_memory 0 9)) 4
        = Some (hd (thread_block 0 1 10 3 t))
    \<and> result_word (static_init_of_thread (team 3) t 0 0 sch_static 0 4 8 12 1 0 (loop_memory 0 9)) 8
        = Some (last (thread_block 0 1 10 3 t))
    \<and> result_word (static_init_of_thread (team 3) t 0 0 sch_static 0 4 8 12 1 0 (loop_memory 0 9)) 12
        = Some 10
    \<and> result_word (static_init_of_thread (team 3) t 0 0 sch_static 0 4 8 12 1 0 (loop_memory 0 9)) 0
        = Some (bool_I32 (t = 2))"
    using p by (simp add: team_three(3) loop_memory_lower)
  have t0: "(0 :: nat) < 3" and t1: "(1 :: nat) < 3" and t2: "(2 :: nat) < 3" by simp_all
  show ?thesis
    using all [rule_format, OF t0] all [rule_format, OF t1] all [rule_format, OF t2]
      loop_memory_cells [of 0 9] team_three(1,2) loop_memory_tripCount
    by (simp add: blocks_of_ten bool_I32_def)
qed

lemma wide_loop_cells: "loop_cells wide_loop_memory 0 4 8 12"
  by (simp add: loop_cells_def disjoint_words_def validRange_def getMemoryNumPages_def
      numBytesPerPage_def wide_loop_memory_def list_memory_def I32_to_Uptr_0 I32_to_Uptr_cells)

lemma wide_loop_lower: "load_U32 wide_loop_memory (I32_to_Uptr 4) = 0x80000000"
  by (simp add: wide_loop_memory_def list_memory_def load_U32_def load_bytes_numeral
      I32_to_Uptr_cells)

lemma wide_loop_upper: "load_U32 wide_loop_memory (I32_to_Uptr 8) = 0"
  by (simp add: wide_loop_memory_def list_memory_def load_U32_def load_bytes_numeral
      I32_to_Uptr_cells)

lemma sint_int_min: "sint (0x80000000 :: I32) = - 2147483648"
  by simp

lemma wide_loop_tripCount: "loop_tripCount 0x80000000 0 2 = Inr 0xC0000001"
  by (simp add: loop_tripCount_def sdiv_I32_def word_sless_alt signed_divide_int_def)

lemma team_two: "num_threads (team 2) = 2"
  by (simp add: team_def)

lemma wide_loop_raw:
  "kmpc_for_static_init_4 (team 2) tid 0 0 sch_static 0 4 8 12 2 0 wide_loop_memory =
     Inr (store_U32
           (store_U32
             (store_U32
               (store_U32 wide_loop_memory (I32_to_Uptr 4)
                  (0x80000000 + 2 * (tid * (0xC0000001 div 2)
                      + (if tid < 0xC0000001 mod 2 then tid else 0xC0000001 mod 2))))
               (I32_to_Uptr 8)
               (0x80000000 + 2 * (tid * (0xC0000001 div 2)
                   + (if tid < 0xC0000001 mod 2 then tid else 0xC0000001 mod 2))
                  + (0xC0000001 div 2) * 2
                  - (if tid < 0xC0000001 mod 2 then 0 else 2)))
             (I32_to_Uptr 0) (bool_I32 (tid = 2 - 1)))
           (I32_to_Uptr 12) 0xC0000001)"
proof -
  have tc: "loop_tripCount (load_U32 wide_loop_memory (I32_to_Uptr 4))
              (load_U32 wide_loop_memory (I32_to_Uptr 8)) 2 = Inr 0xC0000001"
    by (simp only: wide_loop_lower wide_loop_upper wide_loop_tripCount)
  have n1: "num_threads (team 2) \<noteq> 1" and n0: "num_threads (team 2) \<noteq> 0"
    by (simp_all add: team_two)
  have nge: "\<not> (0xC0000001 :: I32) < num_threads (team 2)"
    by (simp add: team_two)
  show ?thesis
    using static_balanced_raw [OF wide_loop_cells n1 n0 tc nge, of tid 0 0 0]
    by (simp only: wide_loop_lower team_two)
qed

lemma wide_words:
  "(0xC0000001 :: I32) div 2 = 0x60000000" "(0xC0000001 :: I32) mod 2 = 1"
  by simp_all

lemma wide_loop_thread0:
  "result_word (static_init_of_thread (team 2) 0 0 0 sch_static 0 4 8 12 2 0 wide_loop_memory) 4
     = Some 0x80000000"
  "result_word (static_init_of_thread (team 2) 0 0 0 sch_static 0 4 8 12 2 0 wide_loop_memory) 8
     = Some 0x40000000"
  "result_word (static_init_of_thread (team 2) 0 0 0 sch_static 0 4 8 12 2 0 wide_loop_memory) 12
     = Some 0xC0000001"
  using wide_loop_cells
  by (simp_all add: static_init_of_thread_def wide_loop_raw wide_words result_word_def
      loop_cells_def load_store_disjoint)

lemma wide_loop_thread1:
  "result_word (static_init_of_thread (team 2) 1 0 0 sch_static 0 4 8 12 2 0 wide_loop_memory) 4
     = Some 0x40000002"
  "result_word (static_init_of_thread (team 2) 1 0 0 sch_static 0 4 8 12 2 0 wide_loop_memory) 8
     = Some 0"
  using wide_loop_cells
  by (simp_all add: static_init_of_thread_def wide_loop_raw wide_words result_word_def
      loop_cells_def load_store_disjoint)

text \<open>
  Claim C3 at a loop whose bounds are more than \<open>2^31\<close> apart. The loop from
  \<open>-2147483648\<close> to 0 in steps of 2 has 1073741825 iterations. For \<open>incr > 1\<close> the
  source computes \<open>(int) (*upper - *lower) / incr + 1\<close>, under the comment that
  \<open>upper - lower\<close> can exceed the limit of the signed type: the difference wraps to
  \<open>-2147483648\<close>, and the trip count becomes 3221225473. On a team of two threads the
  balanced schedule then hands thread 0 the range from \<open>-2147483648\<close> to 1073741824 and
  thread 1 the range from 1073741826 to 0, with stride 3221225473: both ranges hold
  values beyond \<open>upper\<close>, which are no iterations of the loop, so the ranges do not
  partition the iteration space.
\<close>

theorem static_balanced_wide_loop_overruns:
  "load_U32 wide_loop_memory (I32_to_Uptr 4) = 2147483648
   \<and> sint (2147483648 :: I32) = - 2147483648
   \<and> load_U32 wide_loop_memory (I32_to_Uptr 8) = 0
   \<and> 2 \<le>s num_threads (team 2)
   \<and> (sint (0 :: I32) - sint (2147483648 :: I32)) div sint (2 :: I32) + 1 = 1073741825
   \<and> loop_tripCount 2147483648 0 2 = Inr 3221225473
   \<and> num_threads (team 2) \<le> 3221225473
   \<and> result_word (static_init_of_thread (team 2) 0 0 0 sch_static 0 4 8 12 2 0
                     wide_loop_memory) 12 = Some 3221225473
   \<and> result_word (static_init_of_thread (team 2) 0 0 0 sch_static 0 4 8 12 2 0
                     wide_loop_memory) 4 = Some 2147483648
   \<and> result_word (static_init_of_thread (team 2) 0 0 0 sch_static 0 4 8 12 2 0
                     wide_loop_memory) 8 = Some 1073741824
   \<and> result_word (static_init_of_thread (team 2) 1 0 0 sch_static 0 4 8 12 2 0
                     wide_loop_memory) 4 = Some 1073741826
   \<and> result_word (static_init_of_thread (team 2) 1 0 0 sch_static 0 4 8 12 2 0
                     wide_loop_memory) 8 = Some 0
   \<and> \<not> in_iteration_space 2147483648 0 2 1073741824
   \<and> \<not> in_iteration_space 2147483648 0 2 1073741826"
proof -
  have "(2 :: I32) \<le>s num_threads (team 2)" by (simp add: team_two)
  moreover have "num_threads (team 2) \<le> 3221225473" by (simp add: team_two)
  moreover have "\<not> in_iteration_space 2147483648 0 2 1073741824"
    by (simp add: in_iteration_space_def word_sless_alt)
  moreover have "\<not> in_iteration_space 2147483648 0 2 1073741826"
    by (simp add: in_iteration_space_def word_sless_alt)
  moreover have "(sint (0 :: I32) - sint (2147483648 :: I32)) div sint (2 :: I32) + 1 = 1073741825"
    by simp
  ultimately show ?thesis
    using wide_loop_lower wide_loop_upper wide_loop_tripCount wide_loop_thread0 wide_loop_thread1
    by simp
qed

end
